theory Spec2Isabelle
  imports Complex_Main "HOL-Library.AList"
begin

section \<open>Data model\<close>

text \<open>
  The chart component of \<^verbatim>\<open>TimeSeriesChart\<close> and the helpers of
  \<^verbatim>\<open>data-utils.ts\<close> and \<^verbatim>\<open>time-utils.ts\<close>. A \<^verbatim>\<open>Date\<close> is its
  epoch-millisecond time value (\<^verbatim>\<open>getTime()\<close>); a JavaScript number that the data model
  declares finite is a \<^typ>\<open>real\<close>, so arithmetic on it is exact (no rounding).
\<close>

record DataPoint =
  timestamp :: int
  value_p :: real
  anomaly :: "bool option"
  annotated :: "bool option"
  annotation :: "string option"

text \<open>An optional field is an option: \<open>None\<close> is \<^verbatim>\<open>undefined\<close>. The fields \<^verbatim>\<open>id\<close>,
  \<^verbatim>\<open>value\<close> and \<^verbatim>\<open>unit\<close> carry a suffix because the plain names are taken.\<close>

record TimeSeriesData =
  id_s :: string
  name :: string
  color :: string
  data :: "DataPoint list"
  visible :: "bool option"
  query :: "string option"
  unit_s :: "string option"
  aggregation :: "string option"

text \<open>\<^verbatim>\<open>s.visible !== false\<close>\<close>

definition isVisible :: "TimeSeriesData \<Rightarrow> bool" where
  "isVisible s = (visible s \<noteq> Some False)"

text \<open>
  \<^verbatim>\<open>interface ChartData { timestamp: Date; [key: string]: any }\<close>: a row is a JavaScript
  object, here an association list from the names of its own properties to cells. The
  property \<^verbatim>\<open>timestamp\<close> and the per-series properties share one key space, and a row
  inherits the properties of \<^verbatim>\<open>Object.prototype\<close>: \<open>ObjectV k\<close> is the inherited member
  named \<open>k\<close>.
\<close>

datatype cell = DateV int | NumV real | ObjectV string | Undefined

type_synonym ChartData = "(string \<times> cell) list"

datatype js_error = TypeError

definition objectPrototypeKeys :: "string list" where
  "objectPrototypeKeys =
     [''constructor'', ''hasOwnProperty'', ''isPrototypeOf'', ''propertyIsEnumerable'',
      ''toLocaleString'', ''toString'', ''valueOf'', ''__defineGetter__'',
      ''__defineSetter__'', ''__lookupGetter__'', ''__lookupSetter__'', ''__proto__'']"

text \<open>Property read \<^verbatim>\<open>row[key]\<close>: an own property, else an inherited one, else
  \<^verbatim>\<open>undefined\<close>.\<close>

definition getProp :: "ChartData \<Rightarrow> string \<Rightarrow> cell" where
  "getProp r k =
     (case map_of r k of
        Some c \<Rightarrow> c
      | None \<Rightarrow> if k \<in> set objectPrototypeKeys then ObjectV k else Undefined)"

text \<open>Assignment \<^verbatim>\<open>row[key] = number\<close>: the setter of \<^verbatim>\<open>__proto__\<close> ignores a value
  that is not an object; every other key becomes an own property.\<close>

definition setProp :: "string \<Rightarrow> cell \<Rightarrow> ChartData \<Rightarrow> ChartData" where
  "setProp k v r = (if k = ''__proto__'' then r else AList.update k v r)"

section \<open>Series store: visibility toggle\<close>

text \<open>
  \<^verbatim>\<open>prevSeries.map(s => s.id === id ? { ...s, visible: s.visible === false ? true : false } : s)\<close>
\<close>

definition handleToggleSeries :: "string \<Rightarrow> TimeSeriesData list \<Rightarrow> TimeSeriesData list" where
  "handleToggleSeries i prevSeries =
     map (\<lambda>s. if id_s s = i
              then s\<lparr>visible := Some (if visible s = Some False then True else False)\<rparr>
              else s) prevSeries"

section \<open>Alignment\<close>

text \<open>
  The body of the inner \<^verbatim>\<open>forEach\<close>: create the row of the point's time value when the
  \<^verbatim>\<open>Map\<close> has none, then assign \<^verbatim>\<open>entry[s.id] = point.value\<close> on the row object held
  by the map. A \<^verbatim>\<open>Map\<close> keeps insertion order, as \<^const>\<open>AList.update\<close> does: a new key
  goes to the end, an existing key keeps its place.
\<close>

definition upsertPoint :: "string \<Rightarrow> DataPoint \<Rightarrow> (int \<times> ChartData) list \<Rightarrow> (int \<times> ChartData) list" where
  "upsertPoint sid point timestampMap =
     (case map_of timestampMap (timestamp point) of
        None \<Rightarrow>
          AList.update (timestamp point)
            (setProp sid (NumV (value_p point)) [(''timestamp'', DateV (timestamp point))])
            timestampMap
      | Some entry \<Rightarrow>
          AList.update (timestamp point)
            (setProp sid (NumV (value_p point)) entry) timestampMap)"

definition upsertSeries :: "(int \<times> ChartData) list \<Rightarrow> TimeSeriesData \<Rightarrow> (int \<times> ChartData) list" where
  "upsertSeries timestampMap s = foldl (\<lambda>m point. upsertPoint (id_s s) point m) timestampMap (data s)"

text \<open>\<^verbatim>\<open>a.timestamp.getTime()\<close> raises a \<^verbatim>\<open>TypeError\<close> when the property is not a
  \<^verbatim>\<open>Date\<close>.\<close>

definition getTime :: "ChartData \<Rightarrow> int option" where
  "getTime r = (case map_of r ''timestamp'' of Some (DateV t) \<Rightarrow> Some t | _ \<Rightarrow> None)"

definition timeKey :: "ChartData \<Rightarrow> int" where
  "timeKey r = (case getTime r of Some t \<Rightarrow> t | None \<Rightarrow> 0)"

text \<open>
  \<^verbatim>\<open>.sort((a, b) => a.timestamp.getTime() - b.timestamp.getTime())\<close>: a stable sort. With
  fewer than two rows the comparator is never called; with two or more it is called on
  every row, and raises on a row whose \<^verbatim>\<open>timestamp\<close> is not a \<^verbatim>\<open>Date\<close>.
\<close>

definition sortRows :: "ChartData list \<Rightarrow> js_error + ChartData list" where
  "sortRows rows =
     (if length rows < 2 then Inr rows
      else if list_all (\<lambda>r. getTime r \<noteq> None) rows then Inr (sort_key timeKey rows)
      else Inl TypeError)"

text \<open>The effect that derives \<^verbatim>\<open>chartData\<close> from \<^verbatim>\<open>series\<close>.\<close>

definition align :: "TimeSeriesData list \<Rightarrow> js_error + ChartData list" where
  "align series =
     (if length series > 0
      then (let visibleSeries = filter isVisible series;
                timestampMap = foldl upsertSeries [] visibleSeries
            in sortRows (map snd timestampMap))
      else Inr [])"


text \<open>
  Reference notions for the alignment: the points of the visible series in the order
  the two nested loops visit them, each tagged with its series id; the set of their
  time values; and the value of the last visited point of id \<open>i\<close> at time \<open>t\<close>.
\<close>

definition seriesPoints :: "TimeSeriesData list \<Rightarrow> (string \<times> DataPoint) list" where
  "seriesPoints series =
     concat (map (\<lambda>s. map (Pair (id_s s)) (data s)) (filter isVisible series))"

definition pointTimes :: "TimeSeriesData list \<Rightarrow> int set" where
  "pointTimes series = (\<lambda>x. timestamp (snd x)) ` set (seriesPoints series)"

definition lastValue :: "string \<Rightarrow> int \<Rightarrow> (string \<times> DataPoint) list \<Rightarrow> cell option" where
  "lastValue i t xs =
     (let qs = filter (\<lambda>x. fst x = i \<and> timestamp (snd x) = t) xs
      in if qs = [] then None else Some (NumV (value_p (snd (last qs)))))"

definition upsertAll :: "(string \<times> DataPoint) list \<Rightarrow> (int \<times> ChartData) list" where
  "upsertAll xs = foldl (\<lambda>m x. upsertPoint (fst x) (snd x) m) [] xs"

definition rowView :: "(int \<times> ChartData) list \<Rightarrow> int \<Rightarrow> string \<Rightarrow> cell option" where
  "rowView tm t i = (case map_of tm t of None \<Rightarrow> None | Some r \<Rightarrow> map_of r i)"

section \<open>JavaScript numbers with infinities\<close>

text \<open>
  The accumulators of the domain scan start at \<^verbatim>\<open>Infinity\<close> and \<^verbatim>\<open>-Infinity\<close>, so the
  arithmetic of \<^verbatim>\<open>calculateYAxisDomain\<close> is over the extended numbers. Finite results are
  exact reals: rounding and overflow of doubles are not modelled.
\<close>

datatype jsnum = JNaN | NegInf | Fin real | PosInf

fun Math_min :: "jsnum \<Rightarrow> jsnum \<Rightarrow> jsnum" where
  "Math_min JNaN y = JNaN"
| "Math_min x JNaN = JNaN"
| "Math_min NegInf y = NegInf"
| "Math_min x NegInf = NegInf"
| "Math_min PosInf y = y"
| "Math_min x PosInf = x"
| "Math_min (Fin a) (Fin b) = Fin (min a b)"

fun Math_max :: "jsnum \<Rightarrow> jsnum \<Rightarrow> jsnum" where
  "Math_max JNaN y = JNaN"
| "Math_max x JNaN = JNaN"
| "Math_max PosInf y = PosInf"
| "Math_max x PosInf = PosInf"
| "Math_max NegInf y = y"
| "Math_max x NegInf = x"
| "Math_max (Fin a) (Fin b) = Fin (max a b)"

fun Math_abs :: "jsnum \<Rightarrow> jsnum" where
  "Math_abs JNaN = JNaN"
| "Math_abs NegInf = PosInf"
| "Math_abs PosInf = PosInf"
| "Math_abs (Fin a) = Fin \<bar>a\<bar>"

fun js_neg :: "jsnum \<Rightarrow> jsnum" where
  "js_neg JNaN = JNaN"
| "js_neg NegInf = PosInf"
| "js_neg PosInf = NegInf"
| "js_neg (Fin a) = Fin (- a)"

fun js_add :: "jsnum \<Rightarrow> jsnum \<Rightarrow> jsnum" where
  "js_add JNaN y = JNaN"
| "js_add x JNaN = JNaN"
| "js_add PosInf NegInf = JNaN"
| "js_add NegInf PosInf = JNaN"
| "js_add PosInf y = PosInf"
| "js_add x PosInf = PosInf"
| "js_add NegInf y = NegInf"
| "js_add x NegInf = NegInf"
| "js_add (Fin a) (Fin b) = Fin (a + b)"

definition js_sub :: "jsnum \<Rightarrow> jsnum \<Rightarrow> jsnum" where
  "js_sub x y = js_add x (js_neg y)"

text \<open>The sign of an infinite product; zero times infinity is \<^verbatim>\<open>NaN\<close>.\<close>

definition signedInf :: "real \<Rightarrow> jsnum" where
  "signedInf a = (if a = 0 then JNaN else if 0 < a then PosInf else NegInf)"

fun js_mul :: "jsnum \<Rightarrow> jsnum \<Rightarrow> jsnum" where
  "js_mul JNaN y = JNaN"
| "js_mul x JNaN = JNaN"
| "js_mul PosInf PosInf = PosInf"
| "js_mul PosInf NegInf = NegInf"
| "js_mul NegInf PosInf = NegInf"
| "js_mul NegInf NegInf = PosInf"
| "js_mul PosInf (Fin b) = signedInf b"
| "js_mul NegInf (Fin b) = signedInf (- b)"
| "js_mul (Fin a) PosInf = signedInf a"
| "js_mul (Fin a) NegInf = signedInf (- a)"
| "js_mul (Fin a) (Fin b) = Fin (a * b)"

text \<open>\<^verbatim>\<open>x >= c\<close> for a finite constant \<open>c\<close>: false on \<^verbatim>\<open>NaN\<close>.\<close>

fun js_ge :: "jsnum \<Rightarrow> real \<Rightarrow> bool" where
  "js_ge JNaN c = False"
| "js_ge NegInf c = False"
| "js_ge PosInf c = True"
| "js_ge (Fin a) c = (c \<le> a)"

section \<open>Domain calculator\<close>

definition scanPoint :: "jsnum \<times> jsnum \<Rightarrow> DataPoint \<Rightarrow> jsnum \<times> jsnum" where
  "scanPoint mm point =
     (Math_min (fst mm) (Fin (value_p point)), Math_max (snd mm) (Fin (value_p point)))"

definition scanSeries :: "jsnum \<times> jsnum \<Rightarrow> TimeSeriesData \<Rightarrow> jsnum \<times> jsnum" where
  "scanSeries mm s = (if visible s = Some False then mm else foldl scanPoint mm (data s))"

text \<open>
  \<^verbatim>\<open>calculateYAxisDomain\<close> reads the component state \<^verbatim>\<open>chartData\<close>, \<^verbatim>\<open>series\<close> and
  \<^verbatim>\<open>yAxisScale\<close>.
\<close>

definition calculateYAxisDomain ::
  "ChartData list \<Rightarrow> TimeSeriesData list \<Rightarrow> real \<Rightarrow> jsnum \<times> jsnum" where
  "calculateYAxisDomain chartData series yAxisScale =
     (if length chartData = 0 then (Fin 0, Fin 100)
      else
        (let mm = foldl scanSeries (PosInf, NegInf) series;
             padding = js_mul (js_sub (snd mm) (fst mm)) (Fin (1 / 10));
             calculatedDomain =
               (Math_max (Fin 0) (js_sub (fst mm) padding), js_add (snd mm) padding)
         in if yAxisScale \<noteq> 100
            then (let range = js_sub (snd calculatedDomain) (fst calculatedDomain);
                      scaleFactor = yAxisScale / 100;
                      newMax = js_add (fst calculatedDomain) (js_mul range (Fin scaleFactor))
                  in (fst calculatedDomain, newMax))
            else calculatedDomain))"

section \<open>Formatting layer\<close>

text \<open>
  What the JavaScript runtime and the date library supply: \<^verbatim>\<open>Number::toString\<close> for the
  numbers it prints with a fraction or an exponent, \<^verbatim>\<open>Date.prototype.toString\<close>, the
  text of a member of \<^verbatim>\<open>Object.prototype\<close>, date-fns \<^verbatim>\<open>format\<close> (which depends on
  the local time zone), and the offset of the local time zone, the \<^verbatim>\<open>LocalTZA(t, isUTC)\<close> of
  the language standard: the offset in milliseconds in force at the time value \<open>t\<close>, read
  as UTC or as local time. They are parameters.
\<close>

record host =
  numberToString :: "real \<Rightarrow> string"
  dateToString :: "int \<Rightarrow> string"
  inheritedToString :: "string \<Rightarrow> string"
  format :: "int \<Rightarrow> string \<Rightarrow> string"
  localTZA :: "int \<Rightarrow> bool \<Rightarrow> int"

definition digitChar :: "nat \<Rightarrow> char" where
  "digitChar k = ''0123456789'' ! k"

fun digitsOf :: "nat \<Rightarrow> string" where
  "digitsOf n = (if n < 10 then [digitChar n] else digitsOf (n div 10) @ [digitChar (n mod 10)])"

declare digitsOf.simps [simp del]

text \<open>
  \<^verbatim>\<open>Number.prototype.toFixed(f)\<close> on a finite \<open>x\<close> below \<open>10\<^sup>2\<^sup>1\<close> in magnitude: the sign,
  then the integer \<open>n\<close> closest to \<open>x \<times> 10\<^sup>f\<close> (the larger one on a tie), written with at
  least \<open>f + 1\<close> digits and a point before the last \<open>f\<close>. The standard defines \<open>n\<close> on the exact
  value of \<open>x\<close>, so the reals model it without rounding error.
\<close>

definition toFixedDigits :: "nat \<Rightarrow> real \<Rightarrow> string" where
  "toFixedDigits f x =
     (let s = (if x < 0 then ''-'' else []);
          n = nat \<lfloor>\<bar>x\<bar> * 10 ^ f + 1 / 2\<rfloor>;
          m0 = digitsOf n;
          m = (if length m0 \<le> f then replicate (f + 1 - length m0) (CHR ''0'') @ m0 else m0);
          k = length m
      in if f \<noteq> 0 then s @ take (k - f) m @ ''.'' @ drop (k - f) m else s @ m)"

definition toFixed :: "host \<Rightarrow> nat \<Rightarrow> jsnum \<Rightarrow> string" where
  "toFixed js f v =
     (case v of
        JNaN \<Rightarrow> ''NaN''
      | PosInf \<Rightarrow> ''Infinity''
      | NegInf \<Rightarrow> ''-Infinity''
      | Fin x \<Rightarrow> if \<bar>x\<bar> \<ge> 10 ^ 21 then numberToString js x else toFixedDigits f x)"

definition isDigit :: "char \<Rightarrow> bool" where
  "isDigit c = (c \<in> set ''0123456789'')"

definition allZeros :: "string \<Rightarrow> bool" where
  "allZeros cs = (cs \<noteq> [] \<and> list_all (\<lambda>c. c = CHR ''0'') cs)"

text \<open>
  \<^verbatim>\<open>replace(/\.0+$/, '')\<close>: the leftmost position where a point is followed by one or
  more zeros up to the end of the string; the match is removed.
\<close>

fun replaceDotZeros :: "string \<Rightarrow> string" where
  "replaceDotZeros [] = []"
| "replaceDotZeros (c # cs) =
     (if c = CHR ''.'' \<and> allZeros cs then [] else c # replaceDotZeros cs)"

text \<open>
  The group \<^verbatim>\<open>\d*?\<close> followed by \<^verbatim>\<open>0+$\<close>: the lazy quantifier tries the shortest run of
  digits after which only zeros remain, and gives the run it matched.
\<close>

fun lazyDigits :: "string \<Rightarrow> string option" where
  "lazyDigits [] = None"
| "lazyDigits (d # ds) =
     (if allZeros (d # ds) then Some []
      else if isDigit d then map_option (Cons d) (lazyDigits ds)
      else None)"

text \<open>\<^verbatim>\<open>replace(/(\.\d*?)0+$/, '$1')\<close>: the leftmost match is replaced by its group.\<close>

fun replaceTrailingZeros :: "string \<Rightarrow> string" where
  "replaceTrailingZeros [] = []"
| "replaceTrailingZeros (c # cs) =
     (if c = CHR ''.''
      then (case lazyDigits cs of
              Some ds \<Rightarrow> c # ds
            | None \<Rightarrow> c # replaceTrailingZeros cs)
      else c # replaceTrailingZeros cs)"

text \<open>
  \<^verbatim>\<open>formatBytes\<close>. \<^verbatim>\<open>Math.log\<close> of a negative number or of \<^verbatim>\<open>NaN\<close> is \<^verbatim>\<open>NaN\<close>, and so
  are the index and the quotient; an index outside the unit table reads \<^verbatim>\<open>undefined\<close>, and
  \<^verbatim>\<open>Infinity / Infinity\<close> is \<^verbatim>\<open>NaN\<close>.
\<close>

definition units :: "string list" where
  "units = [''B'', ''KB'', ''MB'', ''GB'', ''TB'', ''PB'']"

definition formatBytes :: "host \<Rightarrow> jsnum \<Rightarrow> string" where
  "formatBytes js bytes =
     (case bytes of
        Fin b \<Rightarrow>
          if b = 0 then ''0 B''
          else if b < 0 then ''NaN undefined''
          else (let i = \<lfloor>log 1024 b\<rfloor>
                in toFixed js 2 (Fin (b / 1024 powr (real_of_int i))) @ '' '' @
                   (if 0 \<le> i \<and> i < 6 then units ! nat i else ''undefined''))
      | _ \<Rightarrow> ''NaN undefined'')"

text \<open>\<^verbatim>\<open>formatValue(value, unit?)\<close>; \<open>None\<close> is an absent argument (\<^verbatim>\<open>undefined\<close> or
  \<^verbatim>\<open>null\<close>).\<close>

definition formatValue :: "host \<Rightarrow> jsnum option \<Rightarrow> string option \<Rightarrow> string" where
  "formatValue js value unit =
     (case value of
        None \<Rightarrow> ''N/A''
      | Some v \<Rightarrow>
          if unit = Some ''B'' \<or> unit = Some ''bytes'' then formatBytes js v
          else
            (let formattedValue =
                   (if js_ge (Math_abs v) 1000 then toFixed js 0 v
                    else if js_ge (Math_abs v) 100 then toFixed js 1 v
                    else if js_ge (Math_abs v) 10 then toFixed js 2 v
                    else toFixed js 3 v);
                 formattedValue = replaceDotZeros formattedValue;
                 formattedValue = replaceTrailingZeros formattedValue
             in (case unit of
                   Some u \<Rightarrow> if u \<noteq> [] then formattedValue @ '' '' @ u else formattedValue
                 | None \<Rightarrow> formattedValue)))"

text \<open>
  The formatting rule in the words of the specification: the number of decimals by
  magnitude, and the removal of trailing zeros after the decimal point (and of the point
  when nothing follows it).
\<close>

definition decimalsFor :: "real \<Rightarrow> nat" where
  "decimalsFor v = (if \<bar>v\<bar> \<ge> 1000 then 0 else if \<bar>v\<bar> \<ge> 100 then 1 else if \<bar>v\<bar> \<ge> 10 then 2 else 3)"

definition dropZeros :: "string \<Rightarrow> string" where
  "dropZeros s = rev (dropWhile (\<lambda>c. c = CHR ''0'') (rev s))"

definition stripTrailingZeros :: "string \<Rightarrow> string" where
  "stripTrailingZeros s =
     (if CHR ''.'' \<in> set s
      then (let t = dropZeros s
            in if last t = CHR ''.'' then butlast t else t)
      else s)"

definition unitSuffix :: "string option \<Rightarrow> string" where
  "unitSuffix unit = (case unit of None \<Rightarrow> [] | Some u \<Rightarrow> if u = [] then [] else '' '' @ u)"

section \<open>Time-range resolver\<close>

text \<open>
  \<^verbatim>\<open>parseInt(string)\<close> without a radix: leading white space is skipped, a sign is read, a
  prefix \<^verbatim>\<open>0x\<close> selects radix 16, and the longest run of digits of the radix is the
  number; with no digit the result is \<^verbatim>\<open>NaN\<close>, here \<open>None\<close>. A string is a list of
  code units below 256; the white space and line terminators among them are tab, line
  feed, vertical tab, form feed, carriage return, space and the no-break space.
\<close>

definition isSpace :: "char \<Rightarrow> bool" where
  "isSpace c = (c \<in> set [CHR 0x09, CHR 0x0A, CHR 0x0B, CHR 0x0C, CHR 0x0D, CHR 0x20, CHR 0xA0])"

definition radixDigit :: "nat \<Rightarrow> char \<Rightarrow> nat option" where
  "radixDigit R c =
     (case map_of
        [(CHR ''0'', 0), (CHR ''1'', 1), (CHR ''2'', 2), (CHR ''3'', 3), (CHR ''4'', 4),
         (CHR ''5'', 5), (CHR ''6'', 6), (CHR ''7'', 7), (CHR ''8'', 8), (CHR ''9'', 9),
         (CHR ''a'', 10), (CHR ''b'', 11), (CHR ''c'', 12), (CHR ''d'', 13), (CHR ''e'', 14),
         (CHR ''f'', 15), (CHR ''A'', 10), (CHR ''B'', 11), (CHR ''C'', 12), (CHR ''D'', 13),
         (CHR ''E'', 14), (CHR ''F'', 15)] c of
        Some d \<Rightarrow> if d < R then Some d else None
      | None \<Rightarrow> None)"

definition digitsValue :: "nat \<Rightarrow> string \<Rightarrow> nat" where
  "digitsValue R Z =
     foldl (\<lambda>a c. case radixDigit R c of Some d \<Rightarrow> a * R + d | None \<Rightarrow> a) 0 Z"

definition parseInt :: "string \<Rightarrow> int option" where
  "parseInt inputString =
     (let S0 = dropWhile isSpace inputString;
          sign = (if S0 \<noteq> [] \<and> hd S0 = CHR ''-'' then - 1 else (1::int));
          S1 = (if S0 \<noteq> [] \<and> (hd S0 = CHR ''+'' \<or> hd S0 = CHR ''-'') then tl S0 else S0);
          hex = (take 2 S1 = ''0x'' \<or> take 2 S1 = ''0X'');
          S2 = (if hex then drop 2 S1 else S1);
          R = (if hex then 16 else 10);
          Z = takeWhile (\<lambda>c. radixDigit R c \<noteq> None) S2
      in if Z = [] then None else Some (sign * int (digitsValue R Z)))"

text \<open>
  A \<^verbatim>\<open>Date\<close> that may be invalid is an \<open>int option\<close>; \<open>None\<close> is \<^verbatim>\<open>Invalid Date\<close>. The
  constructor clips a time value beyond \<open>\<plusminus>8.64 \<times> 10\<^sup>1\<^sup>5\<close> ms to \<^verbatim>\<open>Invalid Date\<close>.
\<close>

definition timeClip :: "int \<Rightarrow> int option" where
  "timeClip t = (if \<bar>t\<bar> \<le> 8640000000000000 then Some t else None)"

text \<open>
  date-fns: \<^verbatim>\<open>subMinutes\<close> and \<^verbatim>\<open>subHours\<close> add a negative number of milliseconds to the
  time value; an amount that is \<^verbatim>\<open>NaN\<close> gives \<^verbatim>\<open>Invalid Date\<close>.
\<close>

definition addMilliseconds :: "int \<Rightarrow> int option \<Rightarrow> int option" where
  "addMilliseconds t amount = (case amount of None \<Rightarrow> None | Some a \<Rightarrow> timeClip (t + a))"

definition subMinutes :: "int \<Rightarrow> int option \<Rightarrow> int option" where
  "subMinutes t amount = addMilliseconds t (map_option (\<lambda>n. - (n * 60000)) amount)"

definition subHours :: "int \<Rightarrow> int option \<Rightarrow> int option" where
  "subHours t amount = addMilliseconds t (map_option (\<lambda>n. - (n * 3600000)) amount)"

text \<open>
  date-fns \<^verbatim>\<open>subDays(date, amount)\<close> is \<^verbatim>\<open>addDays(date, -amount)\<close>, which returns
  \<^verbatim>\<open>Invalid Date\<close> for \<^verbatim>\<open>NaN\<close>, the date itself for 0, and otherwise calls
  \<^verbatim>\<open>date.setDate(date.getDate() + amount)\<close>. \<^verbatim>\<open>setDate\<close> moves the calendar day of the local
  time and keeps the time within the day: the local time moves by whole days of
  86400000 ms, and the result is read back as UTC, so that across a change of the zone's
  offset the time value moves by an hour less or more.
\<close>

definition LocalTime :: "host \<Rightarrow> int \<Rightarrow> int" where
  "LocalTime js t = t + localTZA js t True"

definition UTC :: "host \<Rightarrow> int \<Rightarrow> int" where
  "UTC js t = t - localTZA js t False"

definition setDateBy :: "host \<Rightarrow> int \<Rightarrow> int \<Rightarrow> int option" where
  "setDateBy js t amount = timeClip (UTC js (LocalTime js t + amount * 86400000))"

definition addDays :: "host \<Rightarrow> int \<Rightarrow> int option \<Rightarrow> int option" where
  "addDays js t amount =
     (case amount of
        None \<Rightarrow> None
      | Some a \<Rightarrow> if a = 0 then Some t else setDateBy js t a)"

definition subDays :: "host \<Rightarrow> int \<Rightarrow> int option \<Rightarrow> int option" where
  "subDays js t amount = addDays js t (map_option uminus amount)"

definition endsWith :: "string \<Rightarrow> char \<Rightarrow> bool" where
  "endsWith s c = (s \<noteq> [] \<and> last s = c)"

text \<open>
  \<^verbatim>\<open>getTimeRangeFromValue(value)\<close>; \<open>now\<close> is the clock reading of \<^verbatim>\<open>new Date()\<close>.
  \<^verbatim>\<open>value.replace('m', '')\<close> removes the first occurrence.
\<close>

definition getTimeRangeFromValue :: "host \<Rightarrow> int \<Rightarrow> string \<Rightarrow> int option \<times> int option" where
  "getTimeRangeFromValue js now value =
     (let start =
        (if endsWith value (CHR ''m'') then
           (let minutes = parseInt (remove1 (CHR ''m'') value) in subMinutes now minutes)
         else if endsWith value (CHR ''h'') then
           (let hours = parseInt (remove1 (CHR ''h'') value) in subHours now hours)
         else if endsWith value (CHR ''d'') then
           (let days = parseInt (remove1 (CHR ''d'') value) in subDays js now days)
         else subHours now (Some 1))
      in (start, Some now))"

text \<open>The duration of a unit letter, in milliseconds.\<close>

definition unitDuration :: "char \<Rightarrow> int" where
  "unitDuration u = (if u = CHR ''m'' then 60000 else if u = CHR ''h'' then 3600000 else 86400000)"

section \<open>Chart state and handlers\<close>

datatype mode = Zoom | Pan | Brush

text \<open>
  What a handler does besides changing the state: it invokes the host's callback. The
  toast that a handler shows last is not modelled: it comes after the state updates and
  the callback, and changes neither (also when formatting its text raises).
\<close>

datatype event = OnTimeRangeChange cell cell

text \<open>
  The state of the chart component: its \<^verbatim>\<open>useState\<close> cells, its refs, and whether the
  host passed the optional callback \<^verbatim>\<open>onTimeRangeChange\<close>. \<^verbatim>\<open>zoomLevel\<close> belongs to the
  chart variant that defines \<^verbatim>\<open>handleBrushEnd\<close>. \<^verbatim>\<open>selectedArea\<close> is
  \<^verbatim>\<open>{start?: number, end?: number}\<close>. \<^verbatim>\<open>brushSelected\<close>, a pair of indices or \<^verbatim>\<open>null\<close>,
  belongs to the chart variant that defines \<^verbatim>\<open>handleApplyBrushSelection\<close>.
\<close>

record chart =
  timeRange :: string
  startTime :: cell
  endTime :: cell
  chartData :: "ChartData list"
  zoomMode :: bool
  panMode :: bool
  brushMode :: bool
  selectedArea :: "nat option \<times> nat option"
  brushSelected :: "(nat \<times> nat) option"
  yAxisDomain :: "(real \<times> real) option"
  yAxisScale :: real
  zoomLevel :: real
  interactionModeRef :: "mode option"
  hasOnTimeRangeChange :: bool
  refreshInterval :: int
  refreshTimerRef :: "nat option"

text \<open>\<^verbatim>\<open>!x\<close> on an optional index.\<close>

definition falsy :: "nat option \<Rightarrow> bool" where
  "falsy x = (x = None \<or> x = Some 0)"

definition handleCustomTimeRangeChange :: "cell \<Rightarrow> cell \<Rightarrow> chart \<Rightarrow> event list \<times> chart" where
  "handleCustomTimeRangeChange start end c =
     ((if hasOnTimeRangeChange c then [OnTimeRangeChange start end] else []),
      c\<lparr>startTime := start, endTime := end, timeRange := ''custom''\<rparr>)"

text \<open>The argument of the brush callback is untyped: it may be absent, and so may
  each index.\<close>

record brush_event =
  startIndex :: "nat option"
  endIndex :: "nat option"

definition handleBrushChange :: "brush_event option \<Rightarrow> chart \<Rightarrow> event list \<times> chart" where
  "handleBrushChange brushData c =
     (case brushData of
        None \<Rightarrow> ([], c)
      | Some b \<Rightarrow>
          if falsy (startIndex b) \<or> falsy (endIndex b) then ([], c)
          else if startIndex b = endIndex b then ([], c\<lparr>selectedArea := (None, None)\<rparr>)
          else ([], c\<lparr>selectedArea := (startIndex b, endIndex b)\<rparr>))"

text \<open>\<^verbatim>\<open>chartData[i].timestamp\<close> raises when the index is outside the array.
  In \<^verbatim>\<open>handleBrushApply\<close> the guard \<^verbatim>\<open>!selectedArea.start || !selectedArea.end\<close> holds for
  an absent index and for the index 0.\<close>

definition timestampAt :: "ChartData list \<Rightarrow> nat \<Rightarrow> js_error + cell" where
  "timestampAt rows i = (if i < length rows then Inr (getProp (rows ! i) ''timestamp'') else Inl TypeError)"

definition handleBrushApply :: "chart \<Rightarrow> js_error + event list \<times> chart" where
  "handleBrushApply c =
     (case selectedArea c of
        (Some s, Some e) \<Rightarrow>
          if s = 0 \<or> e = 0 \<or> s = e then Inr ([], c)
          else if length (chartData c) > 0 then
            (case timestampAt (chartData c) s of
               Inl err \<Rightarrow> Inl err
             | Inr startTime' \<Rightarrow>
                 (case timestampAt (chartData c) e of
                    Inl err \<Rightarrow> Inl err
                  | Inr endTime' \<Rightarrow>
                      (let (evs, c1) = handleCustomTimeRangeChange startTime' endTime' c
                       in Inr (evs, c1\<lparr>selectedArea := (None, None), brushMode := False\<rparr>))))
          else Inr ([], c)
      | _ \<Rightarrow> Inr ([], c))"

text \<open>\<^verbatim>\<open>handleBrushEnd\<close> of the chart variant with a zoom level; there
  \<^verbatim>\<open>handleCustomTimeRangeChange\<close> also resets the zoom.\<close>

definition handleCustomTimeRangeChange_z :: "cell \<Rightarrow> cell \<Rightarrow> chart \<Rightarrow> event list \<times> chart" where
  "handleCustomTimeRangeChange_z start end c =
     ((if hasOnTimeRangeChange c then [OnTimeRangeChange start end] else []),
      c\<lparr>startTime := start, endTime := end, timeRange := ''custom'',
        zoomLevel := 1, yAxisDomain := None\<rparr>)"

definition handleBrushEnd :: "nat \<Rightarrow> nat \<Rightarrow> chart \<Rightarrow> js_error + event list \<times> chart" where
  "handleBrushEnd startIdx endIdx c =
     (if startIdx = endIdx \<or> length (chartData c) = 0 then Inr ([], c)
      else
        (case timestampAt (chartData c) startIdx of
           Inl err \<Rightarrow> Inl err
         | Inr start \<Rightarrow>
             (case timestampAt (chartData c) endIdx of
                Inl err \<Rightarrow> Inl err
              | Inr end \<Rightarrow>
                  (let (evs, c1) = handleCustomTimeRangeChange_z start end c
                   in Inr (evs, c1)))))"

text \<open>
  The chart variant that keeps the brush selection in \<^verbatim>\<open>brushSelected\<close>: its
  \<^verbatim>\<open>handleBrushChange\<close> stores the two indices whenever both are defined, and the button
  shown while a selection is stored calls \<^verbatim>\<open>handleApplyBrushSelection\<close>. Both row reads
  are guarded by the length test. \<^verbatim>\<open>handleCustomTimeRangeChange\<close> is the same there as in
  the first variant.
\<close>

definition handleBrushChange_sel :: "brush_event option \<Rightarrow> chart \<Rightarrow> event list \<times> chart" where
  "handleBrushChange_sel brushData c =
     (case brushData of
        None \<Rightarrow> ([], c)
      | Some b \<Rightarrow>
          (case (startIndex b, endIndex b) of
             (Some s, Some e) \<Rightarrow> ([], c\<lparr>brushSelected := Some (s, e)\<rparr>)
           | _ \<Rightarrow> ([], c)))"

definition handleApplyBrushSelection :: "chart \<Rightarrow> event list \<times> chart" where
  "handleApplyBrushSelection c =
     (case brushSelected c of
        None \<Rightarrow> ([], c)
      | Some (startIdx, endIdx) \<Rightarrow>
          if length (chartData c) > 0 then
            (if startIdx < length (chartData c) \<and> endIdx < length (chartData c) then
               (let newStartTime = getProp (chartData c ! startIdx) ''timestamp'';
                    newEndTime = getProp (chartData c ! endIdx) ''timestamp'';
                    (evs, c1) = handleCustomTimeRangeChange newStartTime newEndTime c
                in (evs, c1\<lparr>brushSelected := None\<rparr>))
             else ([], c))
          else ([], c))"

text \<open>The callbacks a handler invoked; a handler that raised invoked none, since both
  row reads come before the call.\<close>

definition emitted :: "js_error + event list \<times> chart \<Rightarrow> event list" where
  "emitted res = (case res of Inl err \<Rightarrow> [] | Inr (evs, c) \<Rightarrow> evs)"

section \<open>Interaction modes\<close>

text \<open>The three toolbar buttons: each \<^verbatim>\<open>onClick\<close> negates its own flag only.\<close>

definition clickZoom :: "chart \<Rightarrow> chart" where
  "clickZoom c = c\<lparr>zoomMode := \<not> zoomMode c\<rparr>"

definition clickPan :: "chart \<Rightarrow> chart" where
  "clickPan c = c\<lparr>panMode := \<not> panMode c\<rparr>"

definition clickBrush :: "chart \<Rightarrow> chart" where
  "clickBrush c = c\<lparr>brushMode := \<not> brushMode c\<rparr>"

text \<open>
  The effect with dependencies \<^verbatim>\<open>[zoomMode, panMode, brushMode]\<close>. It runs after the
  render that shows the state it reads; the state it returns is shown by the next render.
\<close>

definition modeEffect :: "chart \<Rightarrow> chart" where
  "modeEffect c =
     (if zoomMode c then c\<lparr>interactionModeRef := Some Zoom, panMode := False, brushMode := False\<rparr>
      else if panMode c then c\<lparr>interactionModeRef := Some Pan, zoomMode := False, brushMode := False\<rparr>
      else if brushMode c then c\<lparr>interactionModeRef := Some Brush, zoomMode := False, panMode := False\<rparr>
      else c\<lparr>interactionModeRef := None\<rparr>)"

definition handleResetView :: "chart \<Rightarrow> chart" where
  "handleResetView c =
     c\<lparr>yAxisDomain := None, yAxisScale := 100, brushMode := False, panMode := False,
       zoomMode := False, selectedArea := (None, None)\<rparr>"

definition activeModes :: "chart \<Rightarrow> nat" where
  "activeModes c = length (filter (\<lambda>b. b) [zoomMode c, panMode c, brushMode c])"

section \<open>Refresh scheduler\<close>

text \<open>
  The timers of the browser window that this chart installed: handle and period in
  milliseconds. \<^verbatim>\<open>setInterval\<close> returns a fresh positive handle.
\<close>

record window =
  timers :: "(nat \<times> int) list"
  nextHandle :: nat

definition setInterval :: "int \<Rightarrow> window \<Rightarrow> nat \<times> window" where
  "setInterval period w =
     (nextHandle w, w\<lparr>timers := timers w @ [(nextHandle w, period)], nextHandle := nextHandle w + 1\<rparr>)"

definition clearInterval :: "nat \<Rightarrow> window \<Rightarrow> window" where
  "clearInterval h w = w\<lparr>timers := filter (\<lambda>t. fst t \<noteq> h) (timers w)\<rparr>"

definition handleRefreshIntervalChange :: "int \<Rightarrow> chart \<times> window \<Rightarrow> chart \<times> window" where
  "handleRefreshIntervalChange interval cw =
     (let c1 = (fst cw)\<lparr>refreshInterval := interval\<rparr>;
          cw2 = (case refreshTimerRef c1 of
                   Some h \<Rightarrow>
                     if h \<noteq> 0 then (c1\<lparr>refreshTimerRef := None\<rparr>, clearInterval h (snd cw))
                     else (c1, snd cw)
                 | None \<Rightarrow> (c1, snd cw))
      in if interval > 0
         then (let hw = setInterval (interval * 1000) (snd cw2)
               in ((fst cw2)\<lparr>refreshTimerRef := Some (fst hw)\<rparr>, snd hw))
         else cw2)"

text \<open>
  The handler is local to the chart component, which passes it to the range selector
  only; the selector's menu calls it with the value of an entry of
  \<^verbatim>\<open>REFRESH_INTERVALS\<close>, in seconds.
\<close>

definition REFRESH_INTERVALS :: "(string \<times> int) list" where
  "REFRESH_INTERVALS =
     [(''Off'', 0), (''5s'', 5), (''10s'', 10), (''30s'', 30), (''1m'', 60), (''5m'', 300),
      (''15m'', 900), (''30m'', 1800), (''1h'', 3600)]"

text \<open>The scheduler invariant: the ref holds the handle of the one installed timer, or
  there is none.\<close>

definition schedulerOk :: "chart \<times> window \<Rightarrow> bool" where
  "schedulerOk cw =
     (0 < nextHandle (snd cw) \<and>
      (case refreshTimerRef (fst cw) of
         None \<Rightarrow> timers (snd cw) = []
       | Some h \<Rightarrow> 0 < h \<and> h < nextHandle (snd cw) \<and> map fst (timers (snd cw)) = [h]))"

section \<open>CSV export\<close>

text \<open>
  \<^verbatim>\<open>Number::toString\<close> prints the shortest digits that read back as the same number.
  For an integer below \<open>2\<^sup>5\<^sup>3\<close> in magnitude these are its decimal digits: every such
  integer is a number of its own, so no shorter digit string reads back as it. Other
  numbers (with a fraction, or from \<open>2\<^sup>5\<^sup>3\<close> up, where the printed digits end in zeros that
  the exact value does not have) are left to the runtime.
\<close>

definition jsNumberToString :: "host \<Rightarrow> real \<Rightarrow> string" where
  "jsNumberToString js x =
     (if of_int \<lfloor>x\<rfloor> = x \<and> \<bar>x\<bar> < 2 ^ 53
      then (if x < 0 then ''-'' else []) @ digitsOf (nat \<lfloor>\<bar>x\<bar>\<rfloor>)
      else numberToString js x)"

text \<open>An array element under \<^verbatim>\<open>join\<close>: \<^verbatim>\<open>undefined\<close> and the empty string both print as
  nothing.\<close>

definition cellToString :: "host \<Rightarrow> cell \<Rightarrow> string" where
  "cellToString js c =
     (case c of
        NumV x \<Rightarrow> jsNumberToString js x
      | DateV t \<Rightarrow> dateToString js t
      | ObjectV k \<Rightarrow> inheritedToString js k
      | Undefined \<Rightarrow> [])"

fun join :: "string \<Rightarrow> string list \<Rightarrow> string" where
  "join sep [] = []"
| "join sep [x] = x"
| "join sep (x # y # ys) = x @ sep @ join sep (y # ys)"

text \<open>
  \<^verbatim>\<open>formatAbsoluteTime\<close>: date-fns \<^verbatim>\<open>format\<close> turns a number into the date of that time
  value (truncated) and raises on an invalid date; \<open>None\<close> is the exception.
\<close>

definition formatAbsoluteTime :: "host \<Rightarrow> cell \<Rightarrow> string option" where
  "formatAbsoluteTime js c =
     (case c of
        DateV t \<Rightarrow> Some (format js t ''yyyy-MM-dd HH:mm:ss'')
      | NumV x \<Rightarrow>
          map_option (\<lambda>t. format js t ''yyyy-MM-dd HH:mm:ss'')
            (timeClip (if 0 \<le> x then \<lfloor>x\<rfloor> else \<lceil>x\<rceil>))
      | ObjectV k \<Rightarrow> None
      | Undefined \<Rightarrow> None)"

definition csvLine :: "host \<Rightarrow> TimeSeriesData list \<Rightarrow> ChartData \<Rightarrow> string option" where
  "csvLine js visibleSeries point =
     (case formatAbsoluteTime js (getProp point ''timestamp'') of
        None \<Rightarrow> None
      | Some ts \<Rightarrow>
          Some (ts @ '','' @
                join '','' (map (\<lambda>s. cellToString js (getProp point (id_s s))) visibleSeries) @
                [CHR 0x0A]))"

text \<open>
  \<^verbatim>\<open>exportDataCSV\<close>: the text handed to the download, or \<open>None\<close> when nothing is exported
  (no data, or an exception caught by the handler).
\<close>

definition exportDataCSV :: "host \<Rightarrow> ChartData list \<Rightarrow> TimeSeriesData list \<Rightarrow> string option" where
  "exportDataCSV js rows series =
     (if length rows = 0 \<or> length series = 0 then None
      else
        (let visibleSeries = filter isVisible series;
             csvContent = ''timestamp,'' @ join '','' (map name visibleSeries) @ [CHR 0x0A]
         in foldl (\<lambda>acc point.
                     case acc of
                       None \<Rightarrow> None
                     | Some csv \<Rightarrow> map_option (\<lambda>line. csv @ line) (csvLine js visibleSeries point))
              (Some csvContent) rows))"

section \<open>Example inputs\<close>

text \<open>
  Two visible series \<open>A = [(t0, 1), (t1, 2)]\<close> and \<open>B = [(t0, 5)]\<close> with \<open>t0 = 1000\<close> and
  \<open>t1 = 2000\<close>; series whose id is the row property \<^verbatim>\<open>timestamp\<close>, the accessor
  \<^verbatim>\<open>__proto__\<close> or the inherited \<^verbatim>\<open>toString\<close>; a flat series of
  value \<open>-5\<close>; a series without points; a host, one hour ahead of UTC, that prints a time
  value as its digits; a
  chart over four rows; and a window without timers.
\<close>

definition exA :: TimeSeriesData where
  "exA = \<lparr>id_s = ''a'', name = ''A'', color = ''#3584e4'',
           data = [\<lparr>timestamp = 1000, value_p = 1,
                    anomaly = None, annotated = None, annotation = None\<rparr>,
                   \<lparr>timestamp = 2000, value_p = 2,
                    anomaly = None, annotated = None, annotation = None\<rparr>],
           visible = Some True, query = None, unit_s = None, aggregation = None\<rparr>"

definition exB :: TimeSeriesData where
  "exB = \<lparr>id_s = ''b'', name = ''B'', color = ''#f8e45c'',
           data = [\<lparr>timestamp = 1000, value_p = 5,
                    anomaly = None, annotated = None, annotation = None\<rparr>],
           visible = Some True, query = None, unit_s = None, aggregation = None\<rparr>"

definition exRows :: "ChartData list" where
  "exRows = [[(''timestamp'', DateV 1000), (''a'', NumV 1), (''b'', NumV 5)],
             [(''timestamp'', DateV 2000), (''a'', NumV 2)]]"

definition exClash :: TimeSeriesData where
  "exClash = \<lparr>id_s = ''timestamp'', name = ''T'', color = ''#95d45b'',
               data = [\<lparr>timestamp = 1000, value_p = 5,
                    anomaly = None, annotated = None, annotation = None\<rparr>,
                   \<lparr>timestamp = 2000, value_p = 6,
                    anomaly = None, annotated = None, annotation = None\<rparr>],
               visible = Some True, query = None, unit_s = None, aggregation = None\<rparr>"

definition exFlat :: TimeSeriesData where
  "exFlat = \<lparr>id_s = ''a'', name = ''A'', color = ''#3584e4'',
              data = [\<lparr>timestamp = 1000, value_p = - 5,
                    anomaly = None, annotated = None, annotation = None\<rparr>],
              visible = Some True, query = None, unit_s = None, aggregation = None\<rparr>"

definition exFlatRows :: "ChartData list" where
  "exFlatRows = [[(''timestamp'', DateV 1000), (''a'', NumV (- 5))]]"

definition exEmpty :: TimeSeriesData where
  "exEmpty = \<lparr>id_s = ''a'', name = ''A'', color = ''#3584e4'', data = [],
               visible = Some True, query = None, unit_s = None, aggregation = None\<rparr>"

definition exClash1 :: TimeSeriesData where
  "exClash1 = \<lparr>id_s = ''timestamp'', name = ''T'', color = ''#95d45b'',
                data = [\<lparr>timestamp = 1000, value_p = 5,
                    anomaly = None, annotated = None, annotation = None\<rparr>],
                visible = Some True, query = None, unit_s = None, aggregation = None\<rparr>"

definition exProto :: TimeSeriesData where
  "exProto = \<lparr>id_s = ''__proto__'', name = ''P'', color = ''#ff7800'',
               data = [\<lparr>timestamp = 1000, value_p = 5,
                    anomaly = None, annotated = None, annotation = None\<rparr>],
               visible = Some True, query = None, unit_s = None, aggregation = None\<rparr>"

definition exInherited :: TimeSeriesData where
  "exInherited = \<lparr>id_s = ''toString'', name = ''U'', color = ''#9c27b0'',
                   data = [\<lparr>timestamp = 1000, value_p = 5,
                    anomaly = None, annotated = None, annotation = None\<rparr>],
                   visible = Some True, query = None, unit_s = None, aggregation = None\<rparr>"

definition exRowsInherited :: "ChartData list" where
  "exRowsInherited = [[(''timestamp'', DateV 1000), (''a'', NumV 1), (''toString'', NumV 5)],
                      [(''timestamp'', DateV 2000), (''a'', NumV 2)]]"

definition exHost :: host where
  "exHost = \<lparr>numberToString = (\<lambda>x. ''?''), dateToString = (\<lambda>t. ''?''),
              inheritedToString = (\<lambda>k. ''function '' @ k @ ''() { [native code] }''),
              format = (\<lambda>t p. digitsOf (nat t)), localTZA = (\<lambda>t isUTC. 3600000)\<rparr>"

definition exRows4 :: "ChartData list" where
  "exRows4 = [[(''timestamp'', DateV 1000), (''a'', NumV 1)],
              [(''timestamp'', DateV 2000), (''a'', NumV 2)],
              [(''timestamp'', DateV 3000), (''a'', NumV 3)],
              [(''timestamp'', DateV 4000), (''a'', NumV 4)]]"

definition exChart :: chart where
  "exChart = \<lparr>timeRange = ''1h'', startTime = DateV 0, endTime = DateV 3600000,
               chartData = exRows4, zoomMode = False, panMode = False, brushMode = False,
               selectedArea = (None, None), brushSelected = None,
               yAxisDomain = None, yAxisScale = 100,
               zoomLevel = 1, interactionModeRef = None, hasOnTimeRangeChange = True,
               refreshInterval = 0, refreshTimerRef = None\<rparr>"

definition exWindow :: window where
  "exWindow = \<lparr>timers = [], nextHandle = 1\<rparr>"

section \<open>Series store: the toggle changes one flag\<close>

text \<open>
  C9. Toggling the visibility of the series with a given id keeps the list's length and
  order; a series with another id is unchanged; the toggled series keeps every field,
  its points included, but \<^verbatim>\<open>visible\<close>, which becomes the negation of its visibility.
\<close>

theorem toggle_frame:
  "length (handleToggleSeries i ss) = length ss \<and>
   (\<forall>k < length ss.
      (id_s (ss ! k) \<noteq> i \<longrightarrow> handleToggleSeries i ss ! k = ss ! k) \<and>
      (id_s (ss ! k) = i \<longrightarrow>
         handleToggleSeries i ss ! k = (ss ! k)\<lparr>visible := Some (\<not> isVisible (ss ! k))\<rparr> \<and>
         data (handleToggleSeries i ss ! k) = data (ss ! k) \<and>
         isVisible (handleToggleSeries i ss ! k) = (\<not> isVisible (ss ! k))))"
  by (simp add: handleToggleSeries_def isVisible_def)

theorem toggle_frame_witness:
  "handleToggleSeries ''a'' [exA, exB] = [exA\<lparr>visible := Some False\<rparr>, exB] \<and>
   data (handleToggleSeries ''a'' [exA, exB] ! 0) = data exA \<and>
   \<not> isVisible (handleToggleSeries ''a'' [exA, exB] ! 0) \<and>
   handleToggleSeries ''a'' [exA, exB] ! 1 = exB"
  using toggle_frame [of "''a''" "[exA, exB]"]
  by (simp add: handleToggleSeries_def isVisible_def exA_def exB_def)

section \<open>Alignment: one sorted row per time value\<close>

lemma keys_upsertPoint: "fst ` set (upsertPoint sid p tm) = insert (timestamp p) (fst ` set tm)"
  by (simp add: upsertPoint_def dom_update split: option.splits)

lemma setProp_update: "k \<noteq> ''__proto__'' \<Longrightarrow> setProp k v r = AList.update k v r"
  by (simp add: setProp_def)

lemma distinct_upsertPoint: "distinct (map fst tm) \<Longrightarrow> distinct (map fst (upsertPoint sid p tm))"
  by (simp add: upsertPoint_def distinct_update split: option.splits)

lemma rowView_upsertPoint:
  assumes sid: "sid \<noteq> ''__proto__''"
  shows "rowView (upsertPoint sid p tm) t i =
     (if t = timestamp p
      then (if i = sid then Some (NumV (value_p p))
            else if timestamp p \<in> fst ` set tm then rowView tm t i
            else if i = ''timestamp'' then Some (DateV t) else None)
      else rowView tm t i)"
proof (cases "map_of tm (timestamp p)")
  case None
  then have "timestamp p \<notin> fst ` set tm" by (simp add: map_of_eq_None_iff)
  with None show ?thesis
    by (simp add: rowView_def upsertPoint_def update_conv' setProp_update [OF sid])
next
  case (Some entry)
  then have "timestamp p \<in> fst ` set tm" by (metis map_of_eq_None_iff option.distinct(1))
  with Some show ?thesis
    by (simp add: rowView_def upsertPoint_def update_conv' setProp_update [OF sid])
qed

lemma upsertAll_snoc: "upsertAll (xs @ [x]) = upsertPoint (fst x) (snd x) (upsertAll xs)"
  by (simp add: upsertAll_def)

lemma keys_upsertAll: "fst ` set (upsertAll xs) = (\<lambda>x. timestamp (snd x)) ` set xs"
  by (induction xs rule: rev_induct) (auto simp: upsertAll_snoc keys_upsertPoint upsertAll_def)

lemma distinct_upsertAll: "distinct (map fst (upsertAll xs))"
  by (induction xs rule: rev_induct) (auto simp: upsertAll_snoc distinct_upsertPoint upsertAll_def)

lemma lastValue_snoc:
  "lastValue i t (xs @ [x]) =
     (if fst x = i \<and> timestamp (snd x) = t then Some (NumV (value_p (snd x))) else lastValue i t xs)"
  by (simp add: lastValue_def)

lemma lastValue_None: "t \<notin> (\<lambda>x. timestamp (snd x)) ` set xs \<Longrightarrow> lastValue i t xs = None"
  by (auto simp: lastValue_def filter_empty_conv)

lemma rowView_upsertAll:
  assumes "\<forall>x \<in> set xs. fst x \<noteq> ''timestamp'' \<and> fst x \<noteq> ''__proto__''"
  shows "rowView (upsertAll xs) t i =
     (if i = ''timestamp''
      then (if t \<in> (\<lambda>x. timestamp (snd x)) ` set xs then Some (DateV t) else None)
      else lastValue i t xs)"
  using assms
proof (induction xs rule: rev_induct)
  case Nil
  then show ?case by (simp add: upsertAll_def rowView_def lastValue_def)
next
  case (snoc x xs)
  have sid: "fst x \<noteq> ''timestamp''" and pr: "fst x \<noteq> ''__proto__''"
    using snoc.prems by simp_all
  note rowView_upsertPoint = rowView_upsertPoint [OF pr]
  have IH: "rowView (upsertAll xs) t i =
     (if i = ''timestamp''
      then (if t \<in> (\<lambda>x. timestamp (snd x)) ` set xs then Some (DateV t) else None)
      else lastValue i t xs)"
    using snoc by simp
  show ?case
  proof (cases "t = timestamp (snd x)")
    case False
    then show ?thesis
      by (simp add: upsertAll_snoc rowView_upsertPoint lastValue_snoc IH)
  next
    case True
    show ?thesis
    proof (cases "i = fst x")
      case True
      with \<open>t = timestamp (snd x)\<close> sid show ?thesis
        by (simp add: upsertAll_snoc rowView_upsertPoint lastValue_snoc)
    next
      case False
      with IH show ?thesis unfolding \<open>t = timestamp (snd x)\<close>
        by (cases "i = ''timestamp''")
          (simp_all add: upsertAll_snoc rowView_upsertPoint lastValue_snoc keys_upsertAll lastValue_None)
    qed
  qed
qed


lemma foldl_upsertPoint_append:
  "foldl (\<lambda>m point. upsertPoint sid point m) (foldl (\<lambda>m x. upsertPoint (fst x) (snd x) m) [] xs) ps =
   foldl (\<lambda>m x. upsertPoint (fst x) (snd x) m) [] (xs @ map (Pair sid) ps)"
  by (induction ps arbitrary: xs rule: rev_induct) simp_all

lemma foldl_upsertSeries:
  "foldl upsertSeries (upsertAll xs) vs =
   upsertAll (xs @ concat (map (\<lambda>s. map (Pair (id_s s)) (data s)) vs))"
proof (induction vs arbitrary: xs)
  case Nil
  then show ?case by simp
next
  case (Cons s vs)
  have "upsertSeries (upsertAll xs) s = upsertAll (xs @ map (Pair (id_s s)) (data s))"
    by (simp add: upsertSeries_def upsertAll_def foldl_upsertPoint_append)
  then show ?case using Cons.IH by simp
qed

lemma timestampMap_eq:
  "foldl upsertSeries [] (filter isVisible series) = upsertAll (seriesPoints series)"
  using foldl_upsertSeries [of "[]" "filter isVisible series"]
  by (simp add: seriesPoints_def upsertAll_def)

lemma sort_key_short: "length xs < 2 \<Longrightarrow> sort_key f xs = xs"
proof (cases xs)
  case Nil
  then show ?thesis by simp
next
  case (Cons a ys)
  assume "length xs < 2"
  with Cons have "ys = []" by simp
  with Cons show ?thesis by simp
qed

lemma distinct_map_sort_key: "distinct (map f xs) \<Longrightarrow> distinct (map f (sort_key f xs))"
  by (induction xs) (simp_all add: distinct_insort_key)

lemma sortRows_ok:
  assumes "\<forall>r \<in> set rows. getTime r \<noteq> None"
  shows "sortRows rows = Inr (sort_key timeKey rows)"
  using assms by (simp add: sortRows_def sort_key_short list_all_iff)

lemma row_of_key:
  assumes "\<forall>x \<in> set xs. fst x \<noteq> ''timestamp'' \<and> fst x \<noteq> ''__proto__''" and "(t, r) \<in> set (upsertAll xs)"
  shows "map_of r ''timestamp'' = Some (DateV t)"
    and "i \<noteq> ''timestamp'' \<Longrightarrow> map_of r i = lastValue i t xs"
proof -
  have m: "map_of (upsertAll xs) t = Some r"
    using assms(2) distinct_upsertAll by (simp add: map_of_is_SomeI)
  have "t \<in> fst ` set (upsertAll xs)" using assms(2) by force
  then have t: "t \<in> (\<lambda>x. timestamp (snd x)) ` set xs" by (simp add: keys_upsertAll)
  from rowView_upsertAll [OF assms(1), of t "''timestamp''"] m t
  show "map_of r ''timestamp'' = Some (DateV t)" by (simp add: rowView_def)
  from rowView_upsertAll [OF assms(1), of t i] m
  show "i \<noteq> ''timestamp'' \<Longrightarrow> map_of r i = lastValue i t xs" by (simp add: rowView_def)
qed

lemma lastValue_Some_iff:
  "(lastValue i t (seriesPoints series) \<noteq> None) =
   (\<exists>s \<in> set series. isVisible s \<and> id_s s = i \<and> t \<in> timestamp ` set (data s))"
  by (auto simp: lastValue_def seriesPoints_def filter_empty_conv Let_def)

lemma aligned_rows:
  assumes "\<forall>s \<in> set series. isVisible s \<longrightarrow>
             id_s s \<noteq> ''timestamp'' \<and> id_s s \<noteq> ''__proto__''"
  shows "\<exists>rows. align series = Inr rows
     \<and> sorted_wrt (<) (map timeKey rows)
     \<and> set (map timeKey rows) = pointTimes series
     \<and> (\<forall>r \<in> set rows. getTime r = Some (timeKey r)
          \<and> (\<forall>i. i \<noteq> ''timestamp'' \<longrightarrow>
                map_of r i = lastValue i (timeKey r) (seriesPoints series)
              \<and> (map_of r i \<noteq> None) =
                  (\<exists>s \<in> set series. isVisible s \<and> id_s s = i
                      \<and> timeKey r \<in> timestamp ` set (data s))))"
proof -
  let ?xs = "seriesPoints series"
  let ?tm = "upsertAll ?xs"
  let ?rows = "sort_key timeKey (map snd ?tm)"
  have ids: "\<forall>x \<in> set ?xs. fst x \<noteq> ''timestamp'' \<and> fst x \<noteq> ''__proto__''"
    using assms by (auto simp: seriesPoints_def)
  have key: "getTime r = Some t \<and> timeKey r = t" if "(t, r) \<in> set ?tm" for t r
    using row_of_key(1) [OF ids that] by (simp add: getTime_def timeKey_def)
  have keys: "map timeKey (map snd ?tm) = map fst ?tm"
    using key by (auto simp: map_eq_conv)
  have good: "\<forall>r \<in> set (map snd ?tm). getTime r \<noteq> None"
    using key by auto
  have al: "align series = Inr ?rows"
  proof (cases "length series > 0")
    case True
    then show ?thesis
      using sortRows_ok [OF good] by (simp add: align_def timestampMap_eq)
  next
    case False
    then show ?thesis by (simp add: align_def seriesPoints_def upsertAll_def)
  qed
  have dist: "distinct (map timeKey (map snd ?tm))"
    unfolding keys by (rule distinct_upsertAll)
  have srt: "sorted_wrt (<) (map timeKey ?rows)"
    using distinct_map_sort_key [OF dist] by (simp add: strict_sorted_iff)
  have st: "set (map timeKey ?rows) = pointTimes series"
  proof -
    have "set (map timeKey ?rows) = set (map timeKey (map snd ?tm))"
      by (simp only: set_map set_sort)
    also have "\<dots> = fst ` set ?tm" by (simp only: keys set_map)
    also have "\<dots> = pointTimes series" by (simp add: keys_upsertAll pointTimes_def)
    finally show ?thesis .
  qed
  have rows: "getTime r = Some (timeKey r)
          \<and> (\<forall>i. i \<noteq> ''timestamp'' \<longrightarrow>
                map_of r i = lastValue i (timeKey r) ?xs
              \<and> (map_of r i \<noteq> None) =
                  (\<exists>s \<in> set series. isVisible s \<and> id_s s = i
                      \<and> timeKey r \<in> timestamp ` set (data s)))" if "r \<in> set ?rows" for r
  proof -
    from that obtain t where tr: "(t, r) \<in> set ?tm" by auto
    have k: "getTime r = Some t" "timeKey r = t" using key [OF tr] by simp_all
    have v: "map_of r i = lastValue i t ?xs" if "i \<noteq> ''timestamp''" for i
      using row_of_key(2) [OF ids tr that] .
    show ?thesis using k v lastValue_Some_iff [of _ t series] by simp
  qed
  show ?thesis using al srt st rows by blast
qed


text \<open>
  C1, as the code has it. When no visible series has the id \<^verbatim>\<open>timestamp\<close> or
  \<^verbatim>\<open>__proto__\<close> (which a row object does not store as a value), the alignment
  returns rows whose time values are strictly ascending and are exactly the time values
  of the points of the visible series (so there is one row per distinct time value);
  every row keeps its time value under \<^verbatim>\<open>timestamp\<close>; and a row has an entry for an id
  exactly when a visible series of that id has a point at the row's time value, the
  entry being the value of the last such point in iteration order.
\<close>

theorem align_rows:
  assumes "\<forall>s \<in> set series. isVisible s \<longrightarrow>
             id_s s \<noteq> ''timestamp'' \<and> id_s s \<noteq> ''__proto__''"
  shows "\<exists>rows. align series = Inr rows
     \<and> sorted_wrt (<) (map timeKey rows)
     \<and> set (map timeKey rows) = pointTimes series
     \<and> (\<forall>r \<in> set rows. getTime r = Some (timeKey r)
          \<and> (\<forall>i. i \<noteq> ''timestamp'' \<longrightarrow>
                map_of r i = lastValue i (timeKey r) (seriesPoints series)
              \<and> (map_of r i \<noteq> None) =
                  (\<exists>s \<in> set series. isVisible s \<and> id_s s = i
                      \<and> timeKey r \<in> timestamp ` set (data s))))"
  using assms by (rule aligned_rows)

lemma align_example: "align [exA, exB] = Inr exRows"
  by (simp add: align_def upsertSeries_def upsertPoint_def setProp_def sortRows_def getTime_def
      timeKey_def isVisible_def exA_def exB_def exRows_def)

theorem align_rows_witness:
  "id_s exA \<noteq> ''timestamp'' \<and> id_s exB \<noteq> ''timestamp''
   \<and> align [exA, exB] = Inr exRows
   \<and> sorted_wrt (<) (map timeKey exRows)
   \<and> set (map timeKey exRows) = pointTimes [exA, exB]
   \<and> map_of (exRows ! 1) ''b'' = None"
proof -
  have h: "\<forall>s \<in> set [exA, exB]. isVisible s \<longrightarrow>
             id_s s \<noteq> ''timestamp'' \<and> id_s s \<noteq> ''__proto__''"
    by (simp add: exA_def exB_def)
  from align_rows [OF h] align_example
  have "sorted_wrt (<) (map timeKey exRows) \<and> set (map timeKey exRows) = pointTimes [exA, exB]"
    by simp
  then show ?thesis
    using align_example by (simp add: exA_def exB_def exRows_def)
qed

text \<open>
  A series whose id is \<^verbatim>\<open>timestamp\<close> overwrites the time value of its rows with point
  values, and the comparator of the sort raises on them: no row is produced. A series
  whose id is \<^verbatim>\<open>__proto__\<close> leaves no entry in the row of its point.
\<close>

theorem align_clash_counterexample:
  "align [exClash] = Inl TypeError
   \<and> align [exProto] = Inr [[(''timestamp'', DateV 1000)]]"
  by (simp add: align_def upsertSeries_def upsertPoint_def setProp_def sortRows_def getTime_def
      isVisible_def exClash_def exProto_def)

section \<open>Domain calculator: fallback and flat series\<close>

lemma scanPoint_flat:
  assumes "\<forall>p \<in> set ps. value_p p = v" and "mm = (PosInf, NegInf) \<or> mm = (Fin v, Fin v)"
  shows "foldl scanPoint mm ps = (if ps = [] then mm else (Fin v, Fin v))"
  using assms
proof (induction ps arbitrary: mm)
  case Nil
  then show ?case by simp
next
  case (Cons p ps)
  have "scanPoint mm p = (Fin v, Fin v)"
    using Cons.prems by (auto simp: scanPoint_def)
  then show ?case using Cons by simp
qed

lemma scanSeries_flat:
  assumes "\<forall>s \<in> set series. isVisible s \<longrightarrow> (\<forall>p \<in> set (data s). value_p p = v)"
    and "mm = (PosInf, NegInf) \<or> mm = (Fin v, Fin v)"
  shows "foldl scanSeries mm series =
     (if \<exists>s \<in> set series. isVisible s \<and> data s \<noteq> [] then (Fin v, Fin v) else mm)"
  using assms
proof (induction series arbitrary: mm)
  case Nil
  then show ?case by simp
next
  case (Cons s series)
  have step: "scanSeries mm s = (if isVisible s \<and> data s \<noteq> [] then (Fin v, Fin v) else mm)"
  proof (cases "isVisible s")
    case True
    then have "\<forall>p \<in> set (data s). value_p p = v" using Cons.prems(1) by simp
    from scanPoint_flat [OF this Cons.prems(2)] True show ?thesis
      by (simp add: scanSeries_def isVisible_def)
  next
    case False
    then show ?thesis by (simp add: scanSeries_def isVisible_def)
  qed
  have next_ok: "scanSeries mm s = (PosInf, NegInf) \<or> scanSeries mm s = (Fin v, Fin v)"
    using step Cons.prems(2) by auto
  have rest: "\<forall>s \<in> set series. isVisible s \<longrightarrow> (\<forall>p \<in> set (data s). value_p p = v)"
    using Cons.prems(1) by simp
  show ?case
    using Cons.IH [OF rest next_ok] step by auto
qed

lemma align_no_points:
  assumes "align series = Inr rows" and "\<forall>s \<in> set series. isVisible s \<longrightarrow> data s = []"
  shows "rows = []"
proof -
  have "seriesPoints series = []" using assms(2) by (auto simp: seriesPoints_def)
  then have "foldl upsertSeries [] (filter isVisible series) = []"
    by (simp add: timestampMap_eq upsertAll_def)
  then show ?thesis using assms(1) by (simp add: align_def sortRows_def split: if_splits)
qed

lemma flat_series_domain:
  assumes "rows \<noteq> []"
    and "\<forall>s \<in> set series. isVisible s \<longrightarrow> (\<forall>p \<in> set (data s). value_p p = v)"
    and "\<exists>s \<in> set series. isVisible s \<and> data s \<noteq> []"
  shows "calculateYAxisDomain rows series 100 = (Fin (max 0 v), Fin v)"
    and "0 \<le> v \<Longrightarrow> calculateYAxisDomain rows series sc = (Fin v, Fin v)"
proof -
  have mm: "foldl scanSeries (PosInf, NegInf) series = (Fin v, Fin v)"
    using scanSeries_flat [OF assms(2), of "(PosInf, NegInf)"] assms(3) by simp
  show "calculateYAxisDomain rows series 100 = (Fin (max 0 v), Fin v)"
    using assms(1) by (simp add: calculateYAxisDomain_def mm js_sub_def)
  show "0 \<le> v \<Longrightarrow> calculateYAxisDomain rows series sc = (Fin v, Fin v)"
    using assms(1) by (simp add: calculateYAxisDomain_def mm js_sub_def Let_def)
qed

text \<open>
  C3, as the code has it. With no aligned row (in particular when no visible series has a
  point) the domain is the fallback \<open>[0, 100]\<close>. When every point of the visible series
  has the value \<open>v\<close>, the padding is zero and the domain at the default scale is
  \<open>[max 0 v, v]\<close>: the lower bound is clamped at zero, so it is \<open>[v, v]\<close> exactly when
  \<open>v\<close> is not negative (then for every scale factor).
\<close>

theorem computeDomain_flat:
  "calculateYAxisDomain [] series sc = (Fin 0, Fin 100)
   \<and> (align series = Inr rows \<and> (\<forall>s \<in> set series. isVisible s \<longrightarrow> data s = []) \<longrightarrow>
        calculateYAxisDomain rows series sc = (Fin 0, Fin 100))
   \<and> (rows \<noteq> [] \<and> (\<forall>s \<in> set series. isVisible s \<longrightarrow> (\<forall>p \<in> set (data s). value_p p = v))
        \<and> (\<exists>s \<in> set series. isVisible s \<and> data s \<noteq> []) \<longrightarrow>
        calculateYAxisDomain rows series 100 = (Fin (max 0 v), Fin v)
        \<and> (0 \<le> v \<longrightarrow> calculateYAxisDomain rows series sc = (Fin v, Fin v)))"
proof -
  have a: "calculateYAxisDomain [] series sc = (Fin 0, Fin 100)" for series sc
    by (simp add: calculateYAxisDomain_def)
  have b: "calculateYAxisDomain rows series sc = (Fin 0, Fin 100)"
    if "align series = Inr rows" "\<forall>s \<in> set series. isVisible s \<longrightarrow> data s = []"
    using align_no_points [OF that] a by simp
  show ?thesis using a b flat_series_domain by blast
qed

theorem computeDomain_flat_witness:
  "calculateYAxisDomain [] [exB] 100 = (Fin 0, Fin 100)
   \<and> align [exB] = Inr [[(''timestamp'', DateV 1000), (''b'', NumV 5)]]
   \<and> calculateYAxisDomain [[(''timestamp'', DateV 1000), (''b'', NumV 5)]] [exB] 100 = (Fin 5, Fin 5)
   \<and> calculateYAxisDomain [[(''timestamp'', DateV 1000), (''b'', NumV 5)]] [exB] 50 = (Fin 5, Fin 5)"
proof -
  let ?rows = "[[(''timestamp'', DateV 1000), (''b'', NumV 5)]]"
  have 1: "?rows \<noteq> []" by simp
  have 2: "\<forall>s \<in> set [exB]. isVisible s \<longrightarrow> (\<forall>p \<in> set (data s). value_p p = 5)"
    by (simp add: exB_def)
  have 3: "\<exists>s \<in> set [exB]. isVisible s \<and> data s \<noteq> []"
    by (simp add: exB_def isVisible_def)
  have al: "align [exB] = Inr ?rows"
    by (simp add: align_def upsertSeries_def upsertPoint_def setProp_def sortRows_def
        isVisible_def exB_def)
  from computeDomain_flat [of "[exB]" 100 ?rows 5] computeDomain_flat [of "[exB]" 50 ?rows 5]
    1 2 3 al
  show ?thesis by simp
qed

text \<open>A flat series of value \<open>-5\<close>: the domain is \<open>[0, -5]\<close>, not \<open>[-5, -5]\<close>.\<close>

theorem computeDomain_negative_counterexample:
  "align [exFlat] = Inr exFlatRows
   \<and> calculateYAxisDomain exFlatRows [exFlat] 100 = (Fin 0, Fin (- 5))"
  by (simp add: align_def upsertSeries_def upsertPoint_def setProp_def sortRows_def
      isVisible_def exFlat_def exFlatRows_def calculateYAxisDomain_def scanSeries_def
      scanPoint_def js_sub_def)

section \<open>Brush selection: zero width and the first row\<close>

text \<open>
  The handlers of the chart variants with a stored \<^verbatim>\<open>selectedArea\<close> and with
  \<^verbatim>\<open>handleBrushEnd\<close> refuse a selection whose start index equals its end index: the
  brush-change handler invokes no callback and stores no selection for it (it clears the
  stored one, or drops the event), the apply handler returns at once on a stored
  selection whose two ends are equal or absent, and \<^verbatim>\<open>handleBrushEnd\<close> returns at once on
  equal indices.
\<close>

lemma guarded_handlers_zero_width:
  "fst (handleBrushChange (Some \<lparr>startIndex = n, endIndex = n\<rparr>) c) = []
   \<and> (snd (handleBrushChange (Some \<lparr>startIndex = n, endIndex = n\<rparr>) c) = c
        \<or> selectedArea (snd (handleBrushChange (Some \<lparr>startIndex = n, endIndex = n\<rparr>) c)) = (None, None))
   \<and> (fst (selectedArea c) = snd (selectedArea c) \<longrightarrow>
        handleBrushApply c = Inr ([], c) \<and> emitted (handleBrushApply c) = [])
   \<and> handleBrushEnd k k c = Inr ([], c)
   \<and> emitted (handleBrushEnd k k c) = []"
  by (cases "selectedArea c")
    (auto simp: handleBrushChange_def handleBrushApply_def handleBrushEnd_def emitted_def
      split: option.splits)

text \<open>
  C5 on the code. The chart variant that keeps the selection in \<^verbatim>\<open>brushSelected\<close> has no
  such guard. Its brush-change handler stores a selection whose two indices are equal,
  which shows the apply button, and the apply handler then invokes
  \<^verbatim>\<open>onTimeRangeChange\<close> with the time of that row as both the start and the end of the
  window, whenever the index is that of a row and the host passed the callback. On the
  chart of four rows the zero-width selection of row 2 emits the window from 3000 to
  3000, while the guarded handlers emit nothing for the same indices.
\<close>

theorem zero_width_selection_applied:
  "brushSelected (snd (handleBrushChange_sel (Some \<lparr>startIndex = Some n, endIndex = Some n\<rparr>) c))
     = Some (n, n)
   \<and> fst (handleBrushChange_sel (Some \<lparr>startIndex = Some n, endIndex = Some n\<rparr>) c) = []
   \<and> fst (handleApplyBrushSelection
        (snd (handleBrushChange_sel (Some \<lparr>startIndex = Some n, endIndex = Some n\<rparr>) c)))
     = (if n < length (chartData c) \<and> hasOnTimeRangeChange c
        then [OnTimeRangeChange (getProp (chartData c ! n) ''timestamp'')
                                (getProp (chartData c ! n) ''timestamp'')]
        else [])
   \<and> fst (handleApplyBrushSelection
        (snd (handleBrushChange_sel (Some \<lparr>startIndex = Some 2, endIndex = Some 2\<rparr>) exChart)))
     = [OnTimeRangeChange (DateV 3000) (DateV 3000)]
   \<and> emitted (handleBrushApply
        (snd (handleBrushChange (Some \<lparr>startIndex = Some 2, endIndex = Some 2\<rparr>) exChart))) = []
   \<and> emitted (handleBrushApply (exChart\<lparr>selectedArea := (Some 2, Some 2)\<rparr>)) = []
   \<and> emitted (handleBrushEnd 2 2 exChart) = []"
proof -
  have g: "fst (handleApplyBrushSelection
        (snd (handleBrushChange_sel (Some \<lparr>startIndex = Some n, endIndex = Some n\<rparr>) c)))
     = (if n < length (chartData c) \<and> hasOnTimeRangeChange c
        then [OnTimeRangeChange (getProp (chartData c ! n) ''timestamp'')
                                (getProp (chartData c ! n) ''timestamp'')]
        else [])"
    by (simp add: handleBrushChange_sel_def handleApplyBrushSelection_def
        handleCustomTimeRangeChange_def Let_def)
  have e: "fst (handleApplyBrushSelection
        (snd (handleBrushChange_sel (Some \<lparr>startIndex = Some 2, endIndex = Some 2\<rparr>) exChart)))
     = [OnTimeRangeChange (DateV 3000) (DateV 3000)]"
    by (simp add: handleBrushChange_sel_def handleApplyBrushSelection_def
        handleCustomTimeRangeChange_def Let_def getProp_def exChart_def exRows4_def)
  have s: "brushSelected (snd (handleBrushChange_sel (Some \<lparr>startIndex = Some n, endIndex = Some n\<rparr>) c))
     = Some (n, n)
     \<and> fst (handleBrushChange_sel (Some \<lparr>startIndex = Some n, endIndex = Some n\<rparr>) c) = []"
    by (simp add: handleBrushChange_sel_def)
  have o: "emitted (handleBrushApply
        (snd (handleBrushChange (Some \<lparr>startIndex = Some 2, endIndex = Some 2\<rparr>) exChart))) = []
   \<and> emitted (handleBrushApply (exChart\<lparr>selectedArea := (Some 2, Some 2)\<rparr>)) = []
   \<and> emitted (handleBrushEnd 2 2 exChart) = []"
    by (simp add: handleBrushChange_def handleBrushApply_def handleBrushEnd_def emitted_def
        falsy_def exChart_def)
  show ?thesis using g e s o by (simp only: simp_thms)
qed

text \<open>
  C10. A brush event whose start or end index is 0 is dropped: the state, the stored
  selection included, is unchanged. The apply handler returns at once on a stored
  selection whose start index is 0. So applying after such an event does what applying
  before it would have done, and every window the apply handler emits starts at a row of
  index greater than 0.
\<close>

theorem first_row_selection_refused:
  "(startIndex b = Some 0 \<or> endIndex b = Some 0 \<longrightarrow> handleBrushChange (Some b) c = ([], c))
   \<and> (fst (selectedArea c) = Some 0 \<longrightarrow> handleBrushApply c = Inr ([], c))
   \<and> handleBrushApply (snd (handleBrushChange (Some \<lparr>startIndex = Some 0, endIndex = e\<rparr>) c))
       = handleBrushApply c
   \<and> (OnTimeRangeChange t1 t2 \<in> set (emitted (handleBrushApply c)) \<longrightarrow>
        (\<exists>s. fst (selectedArea c) = Some s \<and> 0 < s \<and> s < length (chartData c)
           \<and> t1 = getProp (chartData c ! s) ''timestamp''))"
  by (cases "selectedArea c")
    (auto simp: handleBrushChange_def handleBrushApply_def handleCustomTimeRangeChange_def
      timestampAt_def emitted_def falsy_def
      split: option.splits sum.splits if_splits)

theorem first_row_selection_refused_witness:
  "handleBrushChange (Some \<lparr>startIndex = Some 0, endIndex = Some 3\<rparr>) exChart = ([], exChart)
   \<and> handleBrushApply (exChart\<lparr>selectedArea := (Some 0, Some 3)\<rparr>)
       = Inr ([], exChart\<lparr>selectedArea := (Some 0, Some 3)\<rparr>)
   \<and> emitted (handleBrushApply
        (snd (handleBrushChange (Some \<lparr>startIndex = Some 0, endIndex = Some 3\<rparr>) exChart))) = []
   \<and> emitted (handleBrushApply (exChart\<lparr>selectedArea := (Some 1, Some 2)\<rparr>))
       = [OnTimeRangeChange (DateV 2000) (DateV 3000)]"
  using first_row_selection_refused
      [of "\<lparr>startIndex = Some 0, endIndex = Some 3\<rparr>" exChart "Some 3"]
    first_row_selection_refused
      [of "\<lparr>startIndex = Some 0, endIndex = Some 3\<rparr>" "exChart\<lparr>selectedArea := (Some 0, Some 3)\<rparr>"]
  by (simp add: handleBrushChange_def handleBrushApply_def handleCustomTimeRangeChange_def
      timestampAt_def getProp_def emitted_def falsy_def exChart_def exRows4_def)

section \<open>Refresh scheduler: one timer\<close>

lemma scheduler_step:
  assumes ok: "schedulerOk cw"
  shows "schedulerOk (handleRefreshIntervalChange n cw)
     \<and> refreshInterval (fst (handleRefreshIntervalChange n cw)) = n
     \<and> timers (snd (handleRefreshIntervalChange n cw)) =
           (if 0 < n then [(nextHandle (snd cw), n * 1000)] else [])
     \<and> refreshTimerRef (fst (handleRefreshIntervalChange n cw)) =
           (if 0 < n then Some (nextHandle (snd cw)) else None)
     \<and> nextHandle (snd (handleRefreshIntervalChange n cw)) =
           (if 0 < n then nextHandle (snd cw) + 1 else nextHandle (snd cw))"
proof -
  obtain c w where cw: "cw = (c, w)" by (cases cw)
  show ?thesis
  proof (cases "refreshTimerRef c")
    case None
    with ok cw show ?thesis
      by (simp add: schedulerOk_def handleRefreshIntervalChange_def setInterval_def
          clearInterval_def Let_def)
  next
    case (Some h)
    with ok cw have h: "0 < h" "h < nextHandle w" "map fst (timers w) = [h]"
      by (simp_all add: schedulerOk_def)
    then obtain p where tw: "timers w = [(h, p)]" by (cases "timers w") auto
    from Some ok cw h tw show ?thesis
      by (simp add: schedulerOk_def handleRefreshIntervalChange_def setInterval_def
          clearInterval_def Let_def)
  qed
qed

text \<open>
  C6. The selector calls the handler with one of the values of \<^verbatim>\<open>REFRESH_INTERVALS\<close>,
  none of which is negative. From a state in which the ref holds the one installed timer
  (or none is installed), setting the cadence to \<open>n\<close> seconds, \<open>n\<close> not negative, leaves
  that invariant true and removes the old timer; for \<open>n = 0\<close> no timer is left, and for
  \<open>n\<close> nonzero exactly one timer is installed, with a fresh handle and the period
  \<open>1000 n\<close> ms. So after two changes to nonzero cadences exactly one timer is active, that
  of the second.
\<close>

theorem refresh_scheduler:
  assumes "schedulerOk cw" and "0 \<le> n" and "0 \<le> m"
  shows "list_all (\<lambda>e. 0 \<le> snd e) REFRESH_INTERVALS
     \<and> schedulerOk (handleRefreshIntervalChange n cw)
     \<and> timers (snd (handleRefreshIntervalChange n cw)) =
           (if n \<noteq> 0 then [(nextHandle (snd cw), n * 1000)] else [])
     \<and> refreshTimerRef (fst (handleRefreshIntervalChange n cw)) =
           (if n \<noteq> 0 then Some (nextHandle (snd cw)) else None)
     \<and> (\<forall>h. refreshTimerRef (fst cw) = Some h \<longrightarrow>
            h \<notin> fst ` set (timers (snd (handleRefreshIntervalChange n cw))))
     \<and> (n \<noteq> 0 \<and> m \<noteq> 0 \<longrightarrow>
          length (timers (snd (handleRefreshIntervalChange m (handleRefreshIntervalChange n cw)))) = 1
          \<and> timers (snd (handleRefreshIntervalChange m (handleRefreshIntervalChange n cw))) =
            [(nextHandle (snd cw) + 1, m * 1000)])"
proof -
  note s1 = scheduler_step [OF assms(1), of n]
  from s1 have ok1: "schedulerOk (handleRefreshIntervalChange n cw)" by simp
  note s2 = scheduler_step [OF ok1, of m]
  have pos: "(0 < n) = (n \<noteq> 0)" "(0 < m) = (m \<noteq> 0)" using assms(2,3) by auto
  have old: "h \<notin> fst ` set (timers (snd (handleRefreshIntervalChange n cw)))"
    if "refreshTimerRef (fst cw) = Some h" for h
  proof -
    from that assms(1) have "h < nextHandle (snd cw)" by (simp add: schedulerOk_def)
    then show ?thesis using s1 by auto
  qed
  have sel: "list_all (\<lambda>e. 0 \<le> snd e) REFRESH_INTERVALS"
    by (simp add: REFRESH_INTERVALS_def)
  show ?thesis using s1 s2 old sel by (simp add: pos)
qed

theorem refresh_scheduler_witness:
  "schedulerOk (exChart, exWindow)
   \<and> (''5s'', 5) \<in> set REFRESH_INTERVALS \<and> (''10s'', 10) \<in> set REFRESH_INTERVALS
   \<and> (''Off'', 0) \<in> set REFRESH_INTERVALS
   \<and> timers (snd (handleRefreshIntervalChange 5 (exChart, exWindow))) = [(1, 5000)]
   \<and> timers (snd (handleRefreshIntervalChange 10 (handleRefreshIntervalChange 5 (exChart, exWindow))))
       = [(2, 10000)]
   \<and> timers (snd (handleRefreshIntervalChange 0 (handleRefreshIntervalChange 5 (exChart, exWindow))))
       = []"
proof -
  have ok: "schedulerOk (exChart, exWindow)"
    by (simp add: schedulerOk_def exChart_def exWindow_def)
  have ok5: "schedulerOk (handleRefreshIntervalChange 5 (exChart, exWindow))"
    using refresh_scheduler [OF ok, of 5 10] by simp
  have n5: "nextHandle (snd (handleRefreshIntervalChange 5 (exChart, exWindow))) = 2"
    by (simp add: handleRefreshIntervalChange_def setInterval_def exChart_def exWindow_def Let_def)
  have sel: "(''5s'', 5) \<in> set REFRESH_INTERVALS \<and> (''10s'', 10) \<in> set REFRESH_INTERVALS
      \<and> (''Off'', 0) \<in> set REFRESH_INTERVALS"
    by (simp add: REFRESH_INTERVALS_def)
  show ?thesis
    using ok sel refresh_scheduler [OF ok, of 5 10] refresh_scheduler [OF ok5, of 0 1]
    by (simp add: exWindow_def n5)
qed

section \<open>Interaction modes: exclusivity after the effect\<close>

lemma modeEffect_exclusive: "activeModes (modeEffect c) \<le> 1"
  by (simp add: modeEffect_def activeModes_def)

lemma handleResetView_clears:
  "activeModes (handleResetView c) = 0 \<and> selectedArea (handleResetView c) = (None, None)
   \<and> interactionModeRef (modeEffect (handleResetView c)) = None"
  by (simp add: handleResetView_def activeModes_def modeEffect_def)

text \<open>
  C2 on the code. After every run of the effect at most one mode is on, and a reset
  turns all three off and clears the selection. But a button only negates its own flag:
  with Zoom on, a click on Pan gives a rendered state with both on, and the effect then
  keeps Zoom and switches Pan off again.
\<close>

theorem enable_pan_while_zoom:
  "zoomMode (modeEffect (clickZoom exChart)) \<and> activeModes (modeEffect (clickZoom exChart)) = 1
   \<and> activeModes (clickPan (modeEffect (clickZoom exChart))) = 2
   \<and> zoomMode (modeEffect (clickPan (modeEffect (clickZoom exChart))))
   \<and> \<not> panMode (modeEffect (clickPan (modeEffect (clickZoom exChart))))
   \<and> interactionModeRef (modeEffect (clickPan (modeEffect (clickZoom exChart)))) = Some Zoom"
  by (simp add: modeEffect_def clickZoom_def clickPan_def activeModes_def exChart_def)

section \<open>Time-range resolver: tokens and the default\<close>

text \<open>
  C4 on the code. An unrecognized token that does not end in \<^verbatim>\<open>m\<close>, \<^verbatim>\<open>h\<close> or \<^verbatim>\<open>d\<close> gets
  the window of one hour; one that ends in such a letter, like \<^verbatim>\<open>month\<close>, is parsed, and
  the start of its window is \<^verbatim>\<open>Invalid Date\<close>.
\<close>

theorem resolve_malformed:
  "getTimeRangeFromValue js now ''bogus'' = (timeClip (now - 3600000), Some now)
   \<and> getTimeRangeFromValue js now ''month'' = (None, Some now)"
  by (simp add: getTimeRangeFromValue_def endsWith_def parseInt_def isSpace_def radixDigit_def
      subHours_def addMilliseconds_def Let_def)


text \<open>The rest of the resolver's contract holds: a token made of decimal digits and a
  unit letter gives the window that ends now and spans that many minutes or hours, or
  that many calendar days of the local zone, which are days of 24 hours where the
  zone's offset does not change (unless its start is outside the range of \<^verbatim>\<open>Date\<close>), and a
  token that ends in no unit letter gives the window of one hour.\<close>

lemma isDigit_iff:
  "isDigit c = (c = CHR ''0'' \<or> c = CHR ''1'' \<or> c = CHR ''2'' \<or> c = CHR ''3'' \<or> c = CHR ''4''
      \<or> c = CHR ''5'' \<or> c = CHR ''6'' \<or> c = CHR ''7'' \<or> c = CHR ''8'' \<or> c = CHR ''9'')"
  by (simp add: isDigit_def)

lemma digit_not_letter:
  "isDigit c \<Longrightarrow> c \<noteq> CHR ''-'' \<and> c \<noteq> CHR ''+'' \<and> c \<noteq> CHR ''x'' \<and> c \<noteq> CHR ''X''
     \<and> c \<noteq> CHR ''m'' \<and> c \<noteq> CHR ''h'' \<and> c \<noteq> CHR ''d''"
  by (auto simp: isDigit_iff)

lemma digit_not_space: "isDigit c \<Longrightarrow> \<not> isSpace c"
  by (auto simp: isDigit_iff isSpace_def)

lemma digit_radix: "isDigit c \<Longrightarrow> radixDigit 10 c \<noteq> None"
  unfolding isDigit_iff by (elim disjE; hypsubst; simp add: radixDigit_def)

lemma isDigit_cases:
  "isDigit c \<Longrightarrow> \<not> isSpace c \<and> c \<noteq> CHR ''-'' \<and> c \<noteq> CHR ''+'' \<and> c \<noteq> CHR ''x'' \<and> c \<noteq> CHR ''X''
     \<and> c \<noteq> CHR ''m'' \<and> c \<noteq> CHR ''h'' \<and> c \<noteq> CHR ''d'' \<and> radixDigit 10 c \<noteq> None"
  using digit_not_letter digit_not_space digit_radix by blast

lemma parseInt_digits:
  assumes "ds \<noteq> []" and "list_all isDigit ds"
  shows "parseInt ds = Some (int (digitsValue 10 ds))"
proof -
  obtain d ds' where ds: "ds = d # ds'" using assms(1) by (cases ds) auto
  have d: "isDigit d" and ds': "list_all isDigit ds'" using assms(2) ds by simp_all
  note dc = isDigit_cases [OF d]
  have nohex: "take 2 ds \<noteq> ''0x'' \<and> take 2 ds \<noteq> ''0X''"
  proof (cases ds')
    case Nil
    then show ?thesis using ds by simp
  next
    case (Cons e es)
    then have "isDigit e" using ds' by simp
    from isDigit_cases [OF this] Cons ds show ?thesis by simp
  qed
  have "radixDigit 10 c \<noteq> None" if "c \<in> set ds" for c
  proof -
    from that assms(2) have "isDigit c" by (simp add: list_all_iff)
    from isDigit_cases [OF this] show ?thesis by blast
  qed
  then have tw: "takeWhile (\<lambda>c. radixDigit 10 c \<noteq> None) ds = ds"
    by (simp only: takeWhile_eq_all_conv) blast
  have dw: "dropWhile isSpace ds = ds" using ds dc by simp
  have hd1: "hd ds \<noteq> CHR ''-''" "hd ds \<noteq> CHR ''+''" using ds dc by simp_all
  have nh: "(take 2 ds = ''0x'') = False" "(take 2 ds = ''0X'') = False" using nohex by simp_all
  show ?thesis
    unfolding parseInt_def Let_def dw
    by (simp only: hd1 nh tw assms(1) simp_thms if_False if_True mult_1)
qed

lemma resolve_wellformed:
  assumes "ds \<noteq> []" and "list_all isDigit ds" and "u \<in> {CHR ''m'', CHR ''h'', CHR ''d''}"
  shows "getTimeRangeFromValue js now (ds @ [u]) =
           ((if u = CHR ''d'' then subDays js now (Some (int (digitsValue 10 ds)))
             else timeClip (now - int (digitsValue 10 ds) * unitDuration u)), Some now)"
proof -
  have "u \<notin> set ds"
  proof
    assume "u \<in> set ds"
    with assms(2) have "isDigit u" by (simp add: list_all_iff)
    from isDigit_cases [OF this] assms(3) show False by blast
  qed
  then have rm: "remove1 u (ds @ [u]) = ds" by (simp add: remove1_append)
  have pi: "parseInt ds = Some (int (digitsValue 10 ds))"
    using parseInt_digits [OF assms(1,2)] .
  have "u = CHR ''m'' \<or> u = CHR ''h'' \<or> u = CHR ''d''" using assms(3) by simp
  then show ?thesis
  proof (elim disjE)
    assume "u = CHR ''m''"
    then show ?thesis using rm pi
      by (simp add: getTimeRangeFromValue_def endsWith_def subMinutes_def
          addMilliseconds_def unitDuration_def)
  next
    assume "u = CHR ''h''"
    then show ?thesis using rm pi
      by (simp add: getTimeRangeFromValue_def endsWith_def subHours_def
          addMilliseconds_def unitDuration_def)
  next
    assume "u = CHR ''d''"
    then show ?thesis using rm pi
      by (simp add: getTimeRangeFromValue_def endsWith_def)
  qed
qed

lemma subDays_constant_offset:
  assumes "\<And>x b. localTZA js x b = z"
  shows "subDays js t (Some n) = (if n = 0 then Some t else timeClip (t - n * 86400000))"
  using assms by (simp add: subDays_def addDays_def setDateBy_def LocalTime_def UTC_def)

lemma resolve_default:
  assumes "\<not> endsWith v (CHR ''m'')" and "\<not> endsWith v (CHR ''h'')" and "\<not> endsWith v (CHR ''d'')"
  shows "getTimeRangeFromValue js now v = (timeClip (now - 3600000), Some now)"
  using assms by (simp add: getTimeRangeFromValue_def subHours_def addMilliseconds_def)

lemma resolve_15m: "getTimeRangeFromValue js now ''15m'' = (timeClip (now - 900000), Some now)"
  using resolve_wellformed [of "''15''" "CHR ''m''" js now]
  by (simp add: isDigit_def digitsValue_def radixDigit_def unitDuration_def)

lemma resolve_7d:
  "getTimeRangeFromValue exHost now ''7d'' = (timeClip (now - 604800000), Some now)"
proof -
  have z: "\<And>x b. localTZA exHost x b = 3600000" by (simp add: exHost_def)
  show ?thesis
    using resolve_wellformed [of "''7''" "CHR ''d''" exHost now]
    by (simp add: isDigit_def digitsValue_def radixDigit_def subDays_constant_offset [OF z])
qed

section \<open>Formatting layer: decimals by magnitude, trailing zeros\<close>

lemma digitsOf_small: "n < 10 \<Longrightarrow> digitsOf n = [digitChar n]"
  by (subst digitsOf.simps) simp

lemma digitsOf_big: "\<not> n < 10 \<Longrightarrow> digitsOf n = digitsOf (n div 10) @ [digitChar (n mod 10)]"
  by (subst digitsOf.simps) simp

lemma isDigit_digitChar: "k < 10 \<Longrightarrow> isDigit (digitChar k)"
proof -
  assume "k < 10"
  then have "k \<in> {0, 1, 2, 3, 4, 5, 6, 7, 8, 9}" by auto
  then show ?thesis by (auto simp: isDigit_def digitChar_def)
qed

lemma digits_digitsOf: "list_all isDigit (digitsOf n)"
proof (induction n rule: digitsOf.induct)
  case (1 n)
  show ?case
  proof (cases "n < 10")
    case True
    then show ?thesis by (simp add: digitsOf_small isDigit_digitChar)
  next
    case False
    then show ?thesis using 1 by (simp add: digitsOf_big isDigit_digitChar)
  qed
qed

lemma isDigit_not_dot: "isDigit c \<Longrightarrow> c \<noteq> CHR ''.''"
  by (auto simp: isDigit_def)

lemma digits_no_dot: "list_all isDigit cs \<Longrightarrow> CHR ''.'' \<notin> set cs"
  by (auto simp: list_all_iff dest: isDigit_not_dot)

lemma replaceDotZeros_no_dot: "CHR ''.'' \<notin> set p \<Longrightarrow> replaceDotZeros (p @ q) = p @ replaceDotZeros q"
  by (induction p) auto

lemma replaceTrailingZeros_no_dot:
  "CHR ''.'' \<notin> set p \<Longrightarrow> replaceTrailingZeros (p @ q) = p @ replaceTrailingZeros q"
  by (induction p) auto

lemma replaceDotZeros_digits: "CHR ''.'' \<notin> set cs \<Longrightarrow> replaceDotZeros cs = cs"
  using replaceDotZeros_no_dot [of cs "[]"] by simp

lemma replaceTrailingZeros_digits: "CHR ''.'' \<notin> set cs \<Longrightarrow> replaceTrailingZeros cs = cs"
  using replaceTrailingZeros_no_dot [of cs "[]"] by simp

lemma allZeros_dropZeros: "allZeros cs \<Longrightarrow> dropZeros cs = []"
  by (simp add: allZeros_def dropZeros_def list_all_iff)

lemma allZeros_last: "allZeros cs \<Longrightarrow> last cs = CHR ''0''"
  unfolding allZeros_def list_all_iff using last_in_set by blast

lemma dropZeros_Cons: "\<not> allZeros (d # ds) \<Longrightarrow> dropZeros (d # ds) = d # dropZeros ds"
proof -
  assume a: "\<not> allZeros (d # ds)"
  show ?thesis
  proof (cases "dropWhile (\<lambda>c. c = CHR ''0'') (rev ds) = []")
    case True
    then have z: "list_all (\<lambda>c. c = CHR ''0'') ds"
      by (simp add: list_all_iff dropWhile_eq_Nil_conv)
    with a have "d \<noteq> CHR ''0''" by (simp add: allZeros_def)
    with True z show ?thesis
      by (simp add: dropZeros_def dropWhile_append list_all_iff)
  next
    case False
    then obtain y where "y \<in> set (rev ds)" "y \<noteq> CHR ''0''"
      by (auto simp: dropWhile_eq_Nil_conv)
    then show ?thesis
      by (simp add: dropZeros_def dropWhile_append1)
  qed
qed

lemma dropZeros_id: "cs \<noteq> [] \<Longrightarrow> last cs \<noteq> CHR ''0'' \<Longrightarrow> dropZeros cs = cs"
  by (cases cs rule: rev_cases) (simp_all add: dropZeros_def)

lemma dropZeros_append:
  "\<not> allZeros fr \<Longrightarrow> fr \<noteq> [] \<Longrightarrow> dropZeros (p @ fr) = p @ dropZeros fr"
proof -
  assume a: "\<not> allZeros fr" and "fr \<noteq> []"
  then obtain y where "y \<in> set (rev fr)" "y \<noteq> CHR ''0''"
    by (auto simp: allZeros_def list_all_iff)
  then show ?thesis by (simp add: dropZeros_def dropWhile_append1)
qed

lemma dropZeros_nonempty: "\<not> allZeros fr \<Longrightarrow> fr \<noteq> [] \<Longrightarrow> dropZeros fr \<noteq> []"
  by (auto simp: dropZeros_def allZeros_def list_all_iff dropWhile_eq_Nil_conv)

lemma set_dropZeros: "set (dropZeros fr) \<subseteq> set fr"
  unfolding dropZeros_def by (metis set_dropWhileD set_rev subsetI)

lemma lazyDigits_allZeros: "allZeros cs \<Longrightarrow> lazyDigits cs = Some []"
  by (cases cs) (simp_all add: allZeros_def)

lemma lazyDigits_step:
  "\<not> allZeros (d # ds) \<Longrightarrow> isDigit d \<Longrightarrow> lazyDigits (d # ds) = map_option (Cons d) (lazyDigits ds)"
  by simp

lemma lazyDigits_digits:
  "list_all isDigit fr \<Longrightarrow>
   lazyDigits fr = (if fr \<noteq> [] \<and> last fr = CHR ''0'' then Some (dropZeros fr) else None)"
proof (induction fr)
  case Nil
  then show ?case by simp
next
  case (Cons d ds)
  show ?case
  proof (cases "allZeros (d # ds)")
    case True
    show ?thesis
      using lazyDigits_allZeros [OF True] allZeros_last [OF True] allZeros_dropZeros [OF True]
      by (simp del: lazyDigits.simps)
  next
    case False
    have d: "isDigit d" and ds: "list_all isDigit ds" using Cons.prems by simp_all
    have step: "lazyDigits (d # ds) = map_option (Cons d) (lazyDigits ds)"
      using lazyDigits_step [OF False d] .
    show ?thesis
    proof (cases "ds = []")
      case True
      with False have "d \<noteq> CHR ''0''" by (simp add: allZeros_def)
      with True show ?thesis unfolding step by simp
    next
      case nonempty: False
      show ?thesis unfolding step Cons.IH [OF ds] dropZeros_Cons [OF False]
        using nonempty by simp
    qed
  qed
qed

lemma strip_fraction:
  assumes p: "CHR ''.'' \<notin> set p" and fr: "list_all isDigit fr" and ne: "fr \<noteq> []"
  shows "replaceTrailingZeros (replaceDotZeros (p @ ''.'' @ fr)) = stripTrailingZeros (p @ ''.'' @ fr)"
proof (cases "allZeros fr")
  case True
  have a: "replaceDotZeros (p @ ''.'' @ fr) = p"
    using True by (simp add: replaceDotZeros_no_dot [OF p])
  have "dropWhile (\<lambda>c. c = CHR ''0'') (rev fr @ CHR ''.'' # rev p) =
        dropWhile (\<lambda>c. c = CHR ''0'') (CHR ''.'' # rev p)"
    using True by (intro dropWhile_append2) (simp add: allZeros_def list_all_iff)
  then have "dropZeros (p @ ''.'' @ fr) = p @ ''.''"
    by (simp add: dropZeros_def)
  then have "stripTrailingZeros (p @ ''.'' @ fr) = p"
    by (simp add: stripTrailingZeros_def)
  then show ?thesis using a p by (simp add: replaceTrailingZeros_digits)
next
  case False
  have nd: "CHR ''.'' \<notin> set fr" using fr by (rule digits_no_dot)
  have a: "replaceDotZeros (p @ ''.'' @ fr) = p @ ''.'' @ fr"
    using False nd by (simp add: replaceDotZeros_no_dot [OF p] replaceDotZeros_digits)
  have b: "replaceTrailingZeros (p @ ''.'' @ fr) = p @ ''.'' @ dropZeros fr"
  proof (cases "last fr = CHR ''0''")
    case True
    then show ?thesis
      using ne nd by (simp add: replaceTrailingZeros_no_dot [OF p] lazyDigits_digits [OF fr])
  next
    case False
    then show ?thesis
      using ne nd
      by (simp add: replaceTrailingZeros_no_dot [OF p] lazyDigits_digits [OF fr]
          replaceTrailingZeros_digits dropZeros_id)
  qed
  have d: "dropZeros (p @ ''.'' @ fr) = p @ ''.'' @ dropZeros fr"
    using dropZeros_append [OF False ne, of "p @ ''.''"] by simp
  have "last (dropZeros fr) \<in> set fr"
    using dropZeros_nonempty [OF False ne] set_dropZeros last_in_set by blast
  then have "last (dropZeros fr) \<noteq> CHR ''.''" using nd by auto
  then have "stripTrailingZeros (p @ ''.'' @ fr) = p @ ''.'' @ dropZeros fr"
    using dropZeros_nonempty [OF False ne] d
    by (simp add: stripTrailingZeros_def)
  then show ?thesis using a b by simp
qed

lemma strip_no_dot:
  "CHR ''.'' \<notin> set p \<Longrightarrow> replaceTrailingZeros (replaceDotZeros p) = stripTrailingZeros p"
  by (simp add: replaceDotZeros_digits replaceTrailingZeros_digits stripTrailingZeros_def)

lemma toFixedDigits_shape:
  "\<exists>p fr. toFixedDigits f x = p @ (if f = 0 then [] else ''.'' @ fr)
      \<and> CHR ''.'' \<notin> set p \<and> list_all isDigit fr \<and> length fr = f"
proof -
  define s where "s = (if x < 0 then ''-'' else [])"
  define m0 where "m0 = digitsOf (nat \<lfloor>\<bar>x\<bar> * 10 ^ f + 1 / 2\<rfloor>)"
  define m where "m = (if length m0 \<le> f then replicate (f + 1 - length m0) (CHR ''0'') @ m0 else m0)"
  have dm0: "list_all isDigit m0" unfolding m0_def by (rule digits_digitsOf)
  have z: "isDigit (CHR ''0'')" by (simp add: isDigit_def)
  have dm: "list_all isDigit m" using dm0 z by (simp add: m_def list_all_iff)
  have lm: "f < length m" by (simp add: m_def)
  have tf: "toFixedDigits f x = (if f \<noteq> 0 then s @ take (length m - f) m @ ''.'' @ drop (length m - f) m else s @ m)"
    by (simp add: toFixedDigits_def Let_def s_def m_def m0_def)
  have sd: "CHR ''.'' \<notin> set s" by (simp add: s_def)
  show ?thesis
  proof (cases "f = 0")
    case True
    have "CHR ''.'' \<notin> set (s @ m)" using sd digits_no_dot [OF dm] by simp
    with True tf show ?thesis by (intro exI [of _ "s @ m"] exI [of _ "[]"]) simp
  next
    case False
    let ?p = "s @ take (length m - f) m" and ?fr = "drop (length m - f) m"
    have "set (take (length m - f) m) \<subseteq> set m" by (rule set_take_subset)
    then have 1: "CHR ''.'' \<notin> set ?p" using sd digits_no_dot [OF dm] by auto
    have "set ?fr \<subseteq> set m" by (rule set_drop_subset)
    then have 2: "list_all isDigit ?fr" using dm by (auto simp: list_all_iff)
    have 3: "length ?fr = f" using lm by simp
    show ?thesis using False tf 1 2 3
      by (intro exI [of _ ?p] exI [of _ ?fr]) simp
  qed
qed

lemma strip_toFixedDigits:
  "replaceTrailingZeros (replaceDotZeros (toFixedDigits f x)) = stripTrailingZeros (toFixedDigits f x)"
proof -
  obtain p fr where t: "toFixedDigits f x = p @ (if f = 0 then [] else ''.'' @ fr)"
    and p: "CHR ''.'' \<notin> set p" and fr: "list_all isDigit fr" and l: "length fr = f"
    using toFixedDigits_shape by blast
  show ?thesis
  proof (cases "f = 0")
    case True
    then show ?thesis using t p strip_no_dot by simp
  next
    case False
    then have "fr \<noteq> []" using l by auto
    from strip_fraction [OF p fr this] False t show ?thesis by simp
  qed
qed

lemma format_by_magnitude:
  assumes "\<bar>v\<bar> < 10 ^ 21" and "unit \<noteq> Some ''B''" and "unit \<noteq> Some ''bytes''"
  shows "formatValue js (Some (Fin v)) unit =
           stripTrailingZeros (toFixedDigits (decimalsFor v) v) @ unitSuffix unit"
proof -
  have "formatValue js (Some (Fin v)) unit =
     replaceTrailingZeros (replaceDotZeros (toFixedDigits (decimalsFor v) v)) @ unitSuffix unit"
    using assms
    by (simp add: formatValue_def toFixed_def decimalsFor_def unitSuffix_def Let_def
        split: option.splits)
  then show ?thesis by (simp only: strip_toFixedDigits)
qed

lemma unitSuffix_simps:
  "unitSuffix None = []" "unitSuffix (Some ''req/s'') = '' req/s''"
  "unitSuffix (Some ''%'') = '' %''" "unitSuffix (Some ''B'') = '' B''"
  by (simp_all add: unitSuffix_def)

lemma rule_1234: "stripTrailingZeros (toFixedDigits (decimalsFor 1234.5) 1234.5) = ''1235''"
  by (simp add: stripTrailingZeros_def dropZeros_def decimalsFor_def toFixedDigits_def
      digitsOf_small digitsOf_big digitChar_def)

lemma rule_42: "stripTrailingZeros (toFixedDigits (decimalsFor 42.567) 42.567) = ''42.57''"
  by (simp add: stripTrailingZeros_def dropZeros_def decimalsFor_def toFixedDigits_def
      digitsOf_small digitsOf_big digitChar_def)

lemma rule_0: "stripTrailingZeros (toFixedDigits (decimalsFor 0) 0) = ''0''"
  by (simp add: stripTrailingZeros_def dropZeros_def decimalsFor_def toFixedDigits_def
      digitsOf_small digitChar_def eval_nat_numeral)

lemma rule_100: "stripTrailingZeros (toFixedDigits (decimalsFor 100) 100) = ''100''"
  by (simp add: stripTrailingZeros_def dropZeros_def decimalsFor_def toFixedDigits_def
      digitsOf_small digitsOf_big digitChar_def)

lemma rule_1024: "stripTrailingZeros (toFixedDigits (decimalsFor 1024) 1024) = ''1024''"
  by (simp add: stripTrailingZeros_def dropZeros_def decimalsFor_def toFixedDigits_def
      digitsOf_small digitsOf_big digitChar_def)

text \<open>
  C8, as the code has it. For a finite \<open>v\<close> below \<open>10\<^sup>2\<^sup>1\<close> in magnitude and a unit that is
  neither \<^verbatim>\<open>B\<close> nor \<^verbatim>\<open>bytes\<close>, \<^verbatim>\<open>formatValue\<close> is \<^verbatim>\<open>toFixed\<close> at the number of decimals
  that the magnitude selects, with the trailing zeros of the fraction (and a bare point)
  removed by the two replacements, followed by a space and the unit when the unit is
  not empty. The three examples of the specification hold for every host.
\<close>

theorem formatValue_rule:
  "(\<bar>v\<bar> < 10 ^ 21 \<and> unit \<noteq> Some ''B'' \<and> unit \<noteq> Some ''bytes'' \<longrightarrow>
      formatValue js (Some (Fin v)) unit =
        stripTrailingZeros (toFixedDigits (decimalsFor v) v) @ unitSuffix unit)
   \<and> formatValue js (Some (Fin 1234.5)) None = ''1235''
   \<and> formatValue js (Some (Fin 42.567)) None = ''42.57''
   \<and> formatValue js (Some (Fin 0)) (Some ''req/s'') = ''0 req/s''"
proof -
  have "formatValue js (Some (Fin 1234.5)) None =
          stripTrailingZeros (toFixedDigits (decimalsFor 1234.5) 1234.5) @ unitSuffix None"
    by (rule format_by_magnitude) simp_all
  then have 1: "formatValue js (Some (Fin 1234.5)) None = ''1235''"
    by (simp only: rule_1234 unitSuffix_simps append_Nil2)
  have "formatValue js (Some (Fin 42.567)) None =
          stripTrailingZeros (toFixedDigits (decimalsFor 42.567) 42.567) @ unitSuffix None"
    by (rule format_by_magnitude) simp_all
  then have 2: "formatValue js (Some (Fin 42.567)) None = ''42.57''"
    by (simp only: rule_42 unitSuffix_simps append_Nil2)
  have "formatValue js (Some (Fin 0)) (Some ''req/s'') =
          stripTrailingZeros (toFixedDigits (decimalsFor 0) 0) @ unitSuffix (Some ''req/s'')"
    by (rule format_by_magnitude) simp_all
  then have 3: "formatValue js (Some (Fin 0)) (Some ''req/s'') = ''0 req/s''"
    by (simp only: rule_0 unitSuffix_simps) simp
  show ?thesis using format_by_magnitude 1 2 3 by blast
qed

theorem formatValue_rule_witness:
  "formatValue exHost (Some (Fin 42.567)) (Some ''%'') = ''42.57 %''
   \<and> formatValue exHost (Some (Fin 100)) None = ''100''
   \<and> decimalsFor 42.567 = 2 \<and> decimalsFor 100 = 1"
proof -
  have "\<bar>42.567::real\<bar> < 10 ^ 21 \<and> Some ''%'' \<noteq> Some ''B'' \<and> Some ''%'' \<noteq> Some ''bytes''"
    by simp
  with formatValue_rule [of "42.567" "Some ''%''" exHost]
  have "formatValue exHost (Some (Fin 42.567)) (Some ''%'') =
          stripTrailingZeros (toFixedDigits (decimalsFor 42.567) 42.567) @ unitSuffix (Some ''%'')"
    by blast
  then have 1: "formatValue exHost (Some (Fin 42.567)) (Some ''%'') = ''42.57 %''"
    by (simp only: rule_42 unitSuffix_simps) simp
  have "\<bar>100::real\<bar> < 10 ^ 21 \<and> None \<noteq> Some ''B'' \<and> None \<noteq> Some ''bytes''"
    by simp
  with formatValue_rule [of 100 None exHost]
  have "formatValue exHost (Some (Fin 100)) None =
          stripTrailingZeros (toFixedDigits (decimalsFor 100) 100) @ unitSuffix None"
    by blast
  then have 2: "formatValue exHost (Some (Fin 100)) None = ''100''"
    by (simp only: rule_100 unitSuffix_simps append_Nil2)
  show ?thesis using 1 2 by (simp add: decimalsFor_def)
qed

text \<open>With the unit \<^verbatim>\<open>B\<close> the value goes to \<^verbatim>\<open>formatBytes\<close>: 1024 is printed as
  \<^verbatim>\<open>1.00 KB\<close>, where the decimal rule with the unit appended gives \<^verbatim>\<open>1024 B\<close>.\<close>

theorem formatValue_bytes_counterexample:
  "formatValue exHost (Some (Fin 1024)) (Some ''B'') = ''1.00 KB''
   \<and> stripTrailingZeros (toFixedDigits (decimalsFor 1024) 1024) @ unitSuffix (Some ''B'') = ''1024 B''"
proof -
  have 1: "formatValue exHost (Some (Fin 1024)) (Some ''B'') = ''1.00 KB''"
    by (simp add: formatValue_def formatBytes_def toFixed_def toFixedDigits_def digitsOf_small
        digitsOf_big digitChar_def units_def)
  have 2: "stripTrailingZeros (toFixedDigits (decimalsFor 1024) 1024) @ unitSuffix (Some ''B'') = ''1024 B''"
    by (simp only: rule_1024 unitSuffix_simps) simp
  show ?thesis using 1 2 by blast
qed

section \<open>CSV export\<close>

lemma csv_fold:
  assumes "\<forall>r \<in> set rows. csvLine js vis r = Some (f r)"
  shows "foldl (\<lambda>acc point.
                  case acc of
                    None \<Rightarrow> None
                  | Some csv \<Rightarrow> map_option (\<lambda>line. csv @ line) (csvLine js vis point))
           (Some init) rows = Some (init @ concat (map f rows))"
  using assms by (induction rows arbitrary: init) simp_all

lemma csv_cell:
  assumes "i \<noteq> ''timestamp''" and "i \<notin> set objectPrototypeKeys"
    and "map_of r i = lastValue i t pts"
  shows "cellToString js (getProp r i) =
           (case lastValue i t pts of Some (NumV x) \<Rightarrow> jsNumberToString js x | _ \<Rightarrow> [])"
  using assms by (auto simp: getProp_def cellToString_def lastValue_def Let_def)

lemma csv_of_aligned_rows:
  assumes ids: "\<forall>s \<in> set series. isVisible s \<longrightarrow>
                  id_s s \<noteq> ''timestamp'' \<and> id_s s \<notin> set objectPrototypeKeys"
    and al: "align series = Inr rows" and ne: "rows \<noteq> []"
  shows "exportDataCSV js rows series =
     Some (''timestamp,'' @ join '','' (map name (filter isVisible series)) @ [CHR 0x0A] @
           concat (map (\<lambda>r. format js (timeKey r) ''yyyy-MM-dd HH:mm:ss'' @ '','' @
                        join '','' (map (\<lambda>s. case lastValue (id_s s) (timeKey r) (seriesPoints series) of
                                                Some (NumV x) \<Rightarrow> jsNumberToString js x
                                              | _ \<Rightarrow> [])
                                      (filter isVisible series)) @
                        [CHR 0x0A]) rows))"
    and "sorted_wrt (<) (map timeKey rows)"
proof -
  let ?vis = "filter isVisible series"
  let ?f = "\<lambda>r. format js (timeKey r) ''yyyy-MM-dd HH:mm:ss'' @ '','' @
              join '','' (map (\<lambda>s. case lastValue (id_s s) (timeKey r) (seriesPoints series) of
                                      Some (NumV x) \<Rightarrow> jsNumberToString js x
                                    | _ \<Rightarrow> []) ?vis) @
              [CHR 0x0A]"
  have ids': "\<forall>s \<in> set series. isVisible s \<longrightarrow> id_s s \<noteq> ''timestamp'' \<and> id_s s \<noteq> ''__proto__''"
    using ids by (auto simp: objectPrototypeKeys_def)
  from aligned_rows [OF ids'] al
  have srt: "sorted_wrt (<) (map timeKey rows)"
    and row: "\<forall>r \<in> set rows. getTime r = Some (timeKey r)
          \<and> (\<forall>i. i \<noteq> ''timestamp'' \<longrightarrow>
                map_of r i = lastValue i (timeKey r) (seriesPoints series))"
    by auto
  show "sorted_wrt (<) (map timeKey rows)" by (rule srt)
  have line: "csvLine js ?vis r = Some (?f r)" if r: "r \<in> set rows" for r
  proof -
    from row r have "getTime r = Some (timeKey r)" by blast
    then have ts: "getProp r ''timestamp'' = DateV (timeKey r)"
      by (auto simp: getTime_def getProp_def split: option.splits cell.splits)
    have cells: "cellToString js (getProp r (id_s s)) =
        (case lastValue (id_s s) (timeKey r) (seriesPoints series) of
           Some (NumV x) \<Rightarrow> jsNumberToString js x | _ \<Rightarrow> [])" if "s \<in> set ?vis" for s
    proof -
      from that ids have a: "id_s s \<noteq> ''timestamp''" and b: "id_s s \<notin> set objectPrototypeKeys"
        by auto
      from row r a have "map_of r (id_s s) = lastValue (id_s s) (timeKey r) (seriesPoints series)"
        by blast
      from csv_cell [OF a b this] show ?thesis .
    qed
    then have m: "map (\<lambda>s. cellToString js (getProp r (id_s s))) ?vis =
        map (\<lambda>s. case lastValue (id_s s) (timeKey r) (seriesPoints series) of
                   Some (NumV x) \<Rightarrow> jsNumberToString js x | _ \<Rightarrow> []) ?vis"
      by (simp only: map_eq_conv) blast
    show ?thesis
      unfolding csvLine_def m ts by (simp add: formatAbsoluteTime_def)
  qed
  have se: "series \<noteq> []" using al ne by (auto simp: align_def)
  have "\<forall>r \<in> set rows. csvLine js ?vis r = Some (?f r)" using line by blast
  note fold = csv_fold [OF this]
  show "exportDataCSV js rows series =
     Some (''timestamp,'' @ join '','' (map name ?vis) @ [CHR 0x0A] @ concat (map ?f rows))"
    unfolding exportDataCSV_def Let_def fold using ne se by simp
qed


lemma csv_example:
  "exportDataCSV js exRows [exA, exB] =
     Some (''timestamp,A,B'' @ [CHR 0x0A] @
           format js 1000 ''yyyy-MM-dd HH:mm:ss'' @ '',1,5'' @ [CHR 0x0A] @
           format js 2000 ''yyyy-MM-dd HH:mm:ss'' @ '',2,'' @ [CHR 0x0A])"
  by (simp add: exportDataCSV_def csvLine_def formatAbsoluteTime_def getProp_def
      cellToString_def jsNumberToString_def digitsOf_small digitChar_def isVisible_def
      objectPrototypeKeys_def exRows_def exA_def exB_def)

text \<open>
  C7, as the code has it. When the aligned rows are not empty and no visible series has the
  id \<^verbatim>\<open>timestamp\<close> or the name of a member of \<^verbatim>\<open>Object.prototype\<close>, the export is the
  header \<^verbatim>\<open>timestamp,\<close> and the names of the visible series joined by commas, then one
  line per aligned row in ascending time order: the formatted time, and for each visible
  series its value at that time or an empty cell; every line ends with a line feed. For
  \<open>A = [(t0, 1), (t1, 2)]\<close> and \<open>B = [(t0, 5)]\<close> the lines are \<^verbatim>\<open>timestamp,A,B\<close>,
  \<^verbatim>\<open>t0,1,5\<close> and \<^verbatim>\<open>t1,2,\<close>.
\<close>

theorem exportDataCSV_format:
  "((\<forall>s \<in> set series. isVisible s \<longrightarrow>
        id_s s \<noteq> ''timestamp'' \<and> id_s s \<notin> set objectPrototypeKeys)
      \<and> align series = Inr rows \<and> rows \<noteq> [] \<longrightarrow>
      sorted_wrt (<) (map timeKey rows)
      \<and> exportDataCSV js rows series =
          Some (''timestamp,'' @ join '','' (map name (filter isVisible series)) @ [CHR 0x0A] @
                concat (map (\<lambda>r. format js (timeKey r) ''yyyy-MM-dd HH:mm:ss'' @ '','' @
                             join '','' (map (\<lambda>s. case lastValue (id_s s) (timeKey r) (seriesPoints series) of
                                                     Some (NumV x) \<Rightarrow> jsNumberToString js x
                                                   | _ \<Rightarrow> [])
                                           (filter isVisible series)) @
                             [CHR 0x0A]) rows)))
   \<and> align [exA, exB] = Inr exRows
   \<and> exportDataCSV js exRows [exA, exB] =
       Some (''timestamp,A,B'' @ [CHR 0x0A] @
             format js 1000 ''yyyy-MM-dd HH:mm:ss'' @ '',1,5'' @ [CHR 0x0A] @
             format js 2000 ''yyyy-MM-dd HH:mm:ss'' @ '',2,'' @ [CHR 0x0A])"
  using csv_of_aligned_rows align_example csv_example by blast

theorem exportDataCSV_format_witness:
  "id_s exA \<notin> set (''timestamp'' # objectPrototypeKeys)
   \<and> id_s exB \<notin> set (''timestamp'' # objectPrototypeKeys)
   \<and> align [exA, exB] = Inr exRows \<and> exRows \<noteq> []
   \<and> sorted_wrt (<) (map timeKey exRows)
   \<and> exportDataCSV exHost exRows [exA, exB] =
       Some (''timestamp,A,B'' @ [CHR 0x0A] @ ''1000,1,5'' @ [CHR 0x0A] @ ''2000,2,'' @ [CHR 0x0A])"
proof -
  have ids: "\<forall>s \<in> set [exA, exB]. isVisible s \<longrightarrow>
        id_s s \<noteq> ''timestamp'' \<and> id_s s \<notin> set objectPrototypeKeys"
    by (simp add: exA_def exB_def objectPrototypeKeys_def)
  have ne: "exRows \<noteq> []" by (simp add: exRows_def)
  have d1: "digitsOf 1000 = ''1000''" and d2: "digitsOf 2000 = ''2000''"
    by (simp_all add: digitsOf_small digitsOf_big digitChar_def)
  from exportDataCSV_format [of "[exA, exB]" exRows exHost] ids ne
  have "sorted_wrt (<) (map timeKey exRows)"
    and "align [exA, exB] = Inr exRows"
    and "exportDataCSV exHost exRows [exA, exB] =
       Some (''timestamp,A,B'' @ [CHR 0x0A] @
             format exHost 1000 ''yyyy-MM-dd HH:mm:ss'' @ '',1,5'' @ [CHR 0x0A] @
             format exHost 2000 ''yyyy-MM-dd HH:mm:ss'' @ '',2,'' @ [CHR 0x0A])"
    by blast+
  then show ?thesis
    using ne by (simp add: exHost_def d1 d2 exA_def exB_def objectPrototypeKeys_def)
qed

text \<open>
  Without an aligned row nothing is exported, not even the header. A series whose id is
  \<^verbatim>\<open>timestamp\<close> replaces the time of its row: the point \<open>(1000, 5)\<close> is exported with the
  time value 5. And a series whose id is \<^verbatim>\<open>toString\<close> has, where it has no point, the
  text of the inherited function in its cell.
\<close>

theorem exportDataCSV_counterexample:
  "align [exEmpty] = Inr []
   \<and> exportDataCSV exHost [] [exEmpty] = None
   \<and> align [exClash1] = Inr [[(''timestamp'', NumV 5)]]
   \<and> exportDataCSV exHost [[(''timestamp'', NumV 5)]] [exClash1] =
       Some (''timestamp,T'' @ [CHR 0x0A] @ ''5,5'' @ [CHR 0x0A])
   \<and> align [exA, exInherited] = Inr exRowsInherited
   \<and> exportDataCSV exHost exRowsInherited [exA, exInherited] =
       Some (''timestamp,A,U'' @ [CHR 0x0A] @ ''1000,1,5'' @ [CHR 0x0A] @
             ''2000,2,function toString() { [native code] }'' @ [CHR 0x0A])"
proof -
  have d: "digitsOf 1000 = ''1000''" "digitsOf 2000 = ''2000''"
    by (simp_all add: digitsOf_small digitsOf_big digitChar_def)
  have 1: "align [exEmpty] = Inr [] \<and> exportDataCSV exHost [] [exEmpty] = None"
    by (simp add: align_def upsertSeries_def sortRows_def isVisible_def exEmpty_def
        exportDataCSV_def)
  have 2: "align [exClash1] = Inr [[(''timestamp'', NumV 5)]]"
    by (simp add: align_def upsertSeries_def upsertPoint_def setProp_def sortRows_def
        isVisible_def exClash1_def)
  have 3: "exportDataCSV exHost [[(''timestamp'', NumV 5)]] [exClash1] =
       Some (''timestamp,T'' @ [CHR 0x0A] @ ''5,5'' @ [CHR 0x0A])"
    by (simp add: isVisible_def exClash1_def exportDataCSV_def csvLine_def
        formatAbsoluteTime_def timeClip_def getProp_def cellToString_def jsNumberToString_def
        digitsOf_small digitChar_def exHost_def)
  have 4: "align [exA, exInherited] = Inr exRowsInherited"
    by (simp add: align_def upsertSeries_def upsertPoint_def setProp_def sortRows_def
        getTime_def timeKey_def isVisible_def exA_def exInherited_def exRowsInherited_def)
  have 5: "exportDataCSV exHost exRowsInherited [exA, exInherited] =
       Some (''timestamp,A,U'' @ [CHR 0x0A] @ ''1000,1,5'' @ [CHR 0x0A] @
             ''2000,2,function toString() { [native code] }'' @ [CHR 0x0A])"
    by (simp add: isVisible_def exA_def exInherited_def exRowsInherited_def exportDataCSV_def
        csvLine_def formatAbsoluteTime_def getProp_def cellToString_def jsNumberToString_def
        objectPrototypeKeys_def digitsOf_small digitChar_def d exHost_def)
  show ?thesis using 1 2 3 4 5 by blast
qed

end
